theory Spec2Isabelle
  imports Complex_Main "HOL-Library.Sublist" "HOL-Library.Char_ord" "HOL-Library.List_Lexorder"
begin

section \<open>Strings\<close>

text \<open>
  A JavaScript string is modelled as an Isabelle \<open>string\<close>; each \<open>char\<close> stands for one
  UTF-16 code unit in the range 0..255 (the Latin-1 block).  Device names, mount paths,
  UUIDs and ISO timestamps are ASCII.
\<close>

definition is_digit :: "char \<Rightarrow> bool" where
  "is_digit c = (CHR ''0'' \<le> c \<and> c \<le> CHR ''9'')"

definition is_space :: "char \<Rightarrow> bool" where
  \<comment> \<open>the regular-expression class \<open>\s\<close> below code unit 256: TAB, LF, VT, FF, CR, SPACE, NBSP\<close>
  "is_space c = (of_char c \<in> {9, 10, 11, 12, 13, 32, 160 :: nat})"

definition digit_char :: "nat \<Rightarrow> char" where
  "digit_char d = ''0123456789'' ! d"

fun decimal :: "nat \<Rightarrow> string" where
  "decimal n = (if n < 10 then [digit_char n] else decimal (n div 10) @ [digit_char (n mod 10)])"

declare decimal.simps [simp del]

section \<open>Device scanner: size formatting (detect.js)\<close>

definition units :: "string list" where
  "units = [''B'', ''KB'', ''MB'', ''GB'', ''TB'']"

text \<open>
  \<open>Number.prototype.toFixed(1)\<close> for a non-negative finite number below \<open>10^21\<close>: the
  integer \<open>n\<close> with \<open>n / 10\<close> closest to the number, the larger one on a tie, printed with
  one digit after the point.
\<close>

definition toFixed1 :: "rat \<Rightarrow> string" where
  "toFixed1 x = (let n = nat \<lfloor>x * 10 + 1 / 2\<rfloor> in decimal (n div 10) @ ''.'' @ decimal (n mod 10))"

text \<open>
  The \<open>while\<close> loop of \<open>formatSize\<close>.  A byte count is an integer below \<open>2^53\<close>, on which
  the division of a double by 1024 is exact, so the loop variable is a rational.
\<close>

function formatSize_loop :: "rat \<Rightarrow> nat \<Rightarrow> rat \<times> nat" where
  "formatSize_loop sz unitIndex =
     (if sz \<ge> 1024 \<and> unitIndex < length units - 1
      then formatSize_loop (sz / 1024) (unitIndex + 1)
      else (sz, unitIndex))"
  by pat_completeness auto
termination
  by (relation "measure (\<lambda>(sz, unitIndex). length units - 1 - unitIndex)") auto

declare formatSize_loop.simps [simp del]

definition formatSize :: "nat \<Rightarrow> string" where
  "formatSize bytes =
     (case formatSize_loop (of_nat bytes) 0 of
        (sz, unitIndex) \<Rightarrow> toFixed1 sz @ units ! unitIndex)"

section \<open>Device scanner: flattening the lsblk tree (detect.js)\<close>

text \<open>
  One entry of the \<open>blockdevices\<close> array printed by \<open>lsblk --json\<close>.  A field that lsblk
  prints as \<open>null\<close> is \<open>None\<close>; an entry without \<open>children\<close> has the empty list, over
  which \<open>forEach\<close> does nothing either.
\<close>

datatype blockdev = Blockdev
  (bd_name: string) (bd_size: nat) (bd_type: string)
  (bd_mountpoint: "string option") (bd_fstype: "string option")
  (bd_model: "string option") (bd_uuid: "string option")
  (bd_children: "blockdev list")

text \<open>The object pushed by \<open>processDrive\<close>: a live device node.\<close>

record drive_node =
  name :: string
  dsize :: string
  dtype :: string
  mountpoint :: string
  fstype :: string
  model :: string
  uuid :: string
  device :: string

text \<open>\<open>x || dflt\<close> for a value that is \<open>null\<close> or a string: \<open>null\<close> and \<open>""\<close> are falsy.\<close>

definition or_default :: "string option \<Rightarrow> string \<Rightarrow> string" where
  "or_default x dflt = (case x of None \<Rightarrow> dflt | Some v \<Rightarrow> if v = [] then dflt else v)"

definition make_node :: "blockdev \<Rightarrow> drive_node" where
  "make_node d =
     \<lparr> name = bd_name d,
       dsize = formatSize (bd_size d),
       dtype = bd_type d,
       mountpoint = or_default (bd_mountpoint d) ''not mounted'',
       fstype = or_default (bd_fstype d) ''unknown'',
       model = or_default (bd_model d) ''Unknown Model'',
       uuid = or_default (bd_uuid d) (''NO-UUID-'' @ bd_name d),
       device = ''/dev/'' @ bd_name d \<rparr>"

text \<open>
  \<open>processDrive\<close> appends to the array \<open>drives\<close> of the enclosing \<open>detectDrives\<close>; the
  array is passed through explicitly.
\<close>

fun processDrive :: "blockdev \<Rightarrow> drive_node list \<Rightarrow> drive_node list" where
  "processDrive (Blockdev nm sz ty mp fs md uu children) drives =
     (if ty \<noteq> ''disk'' \<and> ty \<noteq> ''part'' then drives
      else fold processDrive children
             (drives @ [make_node (Blockdev nm sz ty mp fs md uu children)]))"

text \<open>
  \<open>detectDrives\<close>: the argument is what \<open>JSON.parse\<close> of the lsblk output gives for
  \<open>data.blockdevices\<close>, or \<open>None\<close> when the command, the parse or the field access
  throws, which the \<open>catch\<close> turns into the empty array.
\<close>

definition detectDrives :: "blockdev list option \<Rightarrow> drive_node list" where
  "detectDrives lsblk = (case lsblk of None \<Rightarrow> [] | Some blockdevices \<Rightarrow> fold processDrive blockdevices [])"

definition getDriveType :: "string \<Rightarrow> string" where
  "getDriveType nm =
     (if prefix ''mmcblk'' nm then ''SD Card''
      else if prefix ''nvme'' nm then ''NVMe SSD''
      else if prefix ''sd'' nm then ''USB/SATA Drive''
      else ''Unknown'')"

section \<open>Registry store (storage.js)\<close>

text \<open>
  JSON values.  A finite double is a rational, and \<open>JSON.parse\<close> of \<open>JSON.stringify\<close>
  gives the number back.
\<close>

datatype json = JNull | JBool bool | JNum rat | JStr string
  | JArr "json list" | JObj "(string \<times> json) list"

text \<open>
  A drive record is a JavaScript object read from or written to the registry file: its
  own properties, by name.  Reading a missing property gives \<open>undefined\<close>, which is
  \<open>None\<close>; a JavaScript value that may be \<open>undefined\<close> is a \<open>json option\<close>.
\<close>

type_synonym jsobject = "string \<rightharpoonup> json"
type_synonym jsvalue = "json option"

text \<open>The property access \<open>obj.key\<close>.\<close>

definition property :: "jsobject \<Rightarrow> string \<Rightarrow> jsvalue" where
  "property obj key = obj key"

text \<open>
  \<open>a === b\<close> between a value held by an object parsed from the file and another value:
  primitives are compared by value, and an array or object is never identical to one that
  \<open>JSON.parse\<close> has just built.
\<close>

fun strict_eq :: "jsvalue \<Rightarrow> jsvalue \<Rightarrow> bool" where
  "strict_eq None None = True"
| "strict_eq (Some JNull) (Some JNull) = True"
| "strict_eq (Some (JBool a)) (Some (JBool b)) = (a = b)"
| "strict_eq (Some (JNum a)) (Some (JNum b)) = (a = b)"
| "strict_eq (Some (JStr a)) (Some (JStr b)) = (a = b)"
| "strict_eq _ _ = False"

fun primitive :: "jsvalue \<Rightarrow> bool" where
  "primitive (Some (JArr _)) = False"
| "primitive (Some (JObj _)) = False"
| "primitive _ = True"

text \<open>
  What the drives file holds: text that \<open>JSON.parse\<close> rejects, or a document
  \<open>{ drives: [...] }\<close> of objects, the shape the store itself writes.  The configuration
  directory and the file may be missing.
\<close>

datatype file_content = Unparseable | Registry "jsobject list"

datatype fs_state = NoConfigDir | NoDrivesFile | DrivesFile file_content

datatype js_error = SyntaxError | ENOENT

definition initStorage :: "fs_state \<Rightarrow> fs_state" where
  "initStorage s =
     (let s1 = (case s of NoConfigDir \<Rightarrow> NoDrivesFile | _ \<Rightarrow> s)
      in case s1 of NoDrivesFile \<Rightarrow> DrivesFile (Registry []) | _ \<Rightarrow> s1)"

text \<open>\<open>JSON.parse(fs.readFileSync(DRIVES_FILE, 'utf8'))\<close>, then the field \<open>drives\<close>.\<close>

definition parse_drives_file :: "fs_state \<Rightarrow> js_error + jsobject list" where
  "parse_drives_file s =
     (case s of
        DrivesFile Unparseable \<Rightarrow> Inl SyntaxError
      | DrivesFile (Registry drives) \<Rightarrow> Inr drives
      | _ \<Rightarrow> Inl ENOENT)"

text \<open>
  Every operation returns its result, or the exception it throws, with the state of the
  file system it leaves.
\<close>

definition getAllDrives :: "fs_state \<Rightarrow> jsobject list \<times> fs_state" where
  "getAllDrives s =
     (let s1 = initStorage s
      in (case parse_drives_file s1 of Inl err \<Rightarrow> [] | Inr drives \<Rightarrow> drives, s1))"

definition getDriveByUUID :: "jsvalue \<Rightarrow> fs_state \<Rightarrow> jsobject option \<times> fs_state" where
  "getDriveByUUID u s =
     (case getAllDrives s of
        (drives, s1) \<Rightarrow> (find (\<lambda>d. strict_eq (property d ''uuid'') u) drives, s1))"

text \<open>\<open>timestamp\<close> is the text \<open>new Date().toISOString()\<close> returns at the call.\<close>

definition addDrive :: "string \<Rightarrow> jsobject \<Rightarrow> fs_state \<Rightarrow> (js_error + bool) \<times> fs_state" where
  "addDrive timestamp driveData s =
     (let s1 = initStorage s
      in case parse_drives_file s1 of
           Inl err \<Rightarrow> (Inl err, s1)
         | Inr drives \<Rightarrow>
             if list_ex (\<lambda>d. strict_eq (property d ''uuid'') (property driveData ''uuid'')) drives
             then (Inr False, s1)
             else (Inr True,
                   DrivesFile (Registry (drives @
                     [driveData(''first_seen'' \<mapsto> JStr timestamp, ''last_seen'' \<mapsto> JStr timestamp)]))))"

text \<open>Assignment to a property of the object that \<open>Array.prototype.find\<close> returned.\<close>

fun update_first :: "('a \<Rightarrow> bool) \<Rightarrow> ('a \<Rightarrow> 'a) \<Rightarrow> 'a list \<Rightarrow> 'a list" where
  "update_first P f [] = []"
| "update_first P f (x # xs) = (if P x then f x # xs else x # update_first P f xs)"

definition updateLastSeen :: "string \<Rightarrow> jsvalue \<Rightarrow> fs_state \<Rightarrow> (js_error + unit) \<times> fs_state" where
  "updateLastSeen timestamp u s =
     (let s1 = initStorage s
      in case parse_drives_file s1 of
           Inl err \<Rightarrow> (Inl err, s1)
         | Inr drives \<Rightarrow>
             (case find (\<lambda>d. strict_eq (property d ''uuid'') u) drives of
                Some drive \<Rightarrow>
                  (Inr (), DrivesFile (Registry
                     (update_first (\<lambda>d. strict_eq (property d ''uuid'') u)
                        (\<lambda>d. d(''last_seen'' \<mapsto> JStr timestamp)) drives)))
              | None \<Rightarrow> (Inr (), s1)))"

definition updateDriveField :: "jsvalue \<Rightarrow> string \<Rightarrow> json \<Rightarrow> fs_state \<Rightarrow> (js_error + bool) \<times> fs_state" where
  "updateDriveField u field v s =
     (let s1 = initStorage s
      in case parse_drives_file s1 of
           Inl err \<Rightarrow> (Inl err, s1)
         | Inr drives \<Rightarrow>
             (case find (\<lambda>d. strict_eq (property d ''uuid'') u) drives of
                Some drive \<Rightarrow>
                  (Inr True, DrivesFile (Registry
                     (update_first (\<lambda>d. strict_eq (property d ''uuid'') u) (\<lambda>d. d(field \<mapsto> v)) drives)))
              | None \<Rightarrow> (Inr False, s1)))"

definition removeDrive :: "jsvalue \<Rightarrow> fs_state \<Rightarrow> (js_error + unit) \<times> fs_state" where
  "removeDrive u s =
     (let s1 = initStorage s
      in case parse_drives_file s1 of
           Inl err \<Rightarrow> (Inl err, s1)
         | Inr drives \<Rightarrow>
             (Inr (), DrivesFile (Registry (filter (\<lambda>d. \<not> strict_eq (property d ''uuid'') u) drives))))"

definition countDrives :: "fs_state \<Rightarrow> nat \<times> fs_state" where
  "countDrives s = (case getAllDrives s of (drives, s1) \<Rightarrow> (length drives, s1))"


section \<open>Reconciliation of the registry with a scan (display.js, index.js)\<close>

text \<open>JavaScript truthiness, for \<open>x || y\<close> and \<open>if (x)\<close>.\<close>

fun truthy :: "jsvalue \<Rightarrow> bool" where
  "truthy None = False"
| "truthy (Some JNull) = False"
| "truthy (Some (JBool b)) = b"
| "truthy (Some (JNum n)) = (n \<noteq> 0)"
| "truthy (Some (JStr t)) = (t \<noteq> [])"
| "truthy (Some (JArr _)) = True"
| "truthy (Some (JObj _)) = True"

text \<open>
  One row pushed to the table of \<open>displayDriveList\<close>, before colouring: the number, the
  label, whether the status cell reads CONNECTED, the size, the type, and the mount path
  (\<open>None\<close> for the cell N/A).
\<close>

record table_row =
  row_index :: nat
  row_label :: jsvalue
  row_connected :: bool
  row_size :: jsvalue
  row_type :: jsvalue
  row_mount :: "string option"

definition detectedUUIDs :: "drive_node list \<Rightarrow> jsvalue set" where
  "detectedUUIDs detectedDrives = set (map (\<lambda>d. Some (JStr (uuid d))) detectedDrives)"

definition make_row :: "drive_node list \<Rightarrow> jsobject \<Rightarrow> nat \<Rightarrow> table_row" where
  "make_row detectedDrives drive index =
     (let isConnected = (property drive ''uuid'' \<in> detectedUUIDs detectedDrives);
          mount =
            (if isConnected
             then (case find (\<lambda>d. strict_eq (Some (JStr (uuid d))) (property drive ''uuid'')) detectedDrives of
                     Some detected \<Rightarrow>
                       if mountpoint detected \<noteq> ''not mounted'' then Some (mountpoint detected) else None
                   | None \<Rightarrow> None)
             else None)
      in \<lparr> row_index = index + 1,
           row_label = (if truthy (property drive ''label'') then property drive ''label'' else Some (JStr ''Unlabeled'')),
           row_connected = isConnected,
           row_size = property drive ''size'',
           row_type = property drive ''type'',
           row_mount = mount \<rparr>)"

text \<open>The rows of the table; with no known drive a notice is printed instead of a table.\<close>

definition displayDriveList :: "drive_node list \<Rightarrow> jsobject list \<Rightarrow> table_row list" where
  "displayDriveList detectedDrives knownDrives =
     (if length knownDrives = 0 then []
      else map (\<lambda>(drive, index). make_row detectedDrives drive index)
             (zip knownDrives [0 ..< length knownDrives]))"

text \<open>
  The loop of \<open>showDrives\<close> that refreshes \<open>last_seen\<close>.  \<open>clock i\<close> is what
  \<open>new Date().toISOString()\<close> returns in the iteration for the \<open>i\<close>-th detected node.
\<close>

fun touch_detected :: "(nat \<Rightarrow> string) \<Rightarrow> nat \<Rightarrow> drive_node list \<Rightarrow> fs_state \<Rightarrow> (js_error + unit) \<times> fs_state" where
  "touch_detected clock i [] s = (Inr (), s)"
| "touch_detected clock i (d # ds) s =
     (case getDriveByUUID (Some (JStr (uuid d))) s of
        (Some drive, s1) \<Rightarrow>
          (case updateLastSeen (clock i) (Some (JStr (uuid d))) s1 of
             (Inl err, s2) \<Rightarrow> (Inl err, s2)
           | (Inr _, s2) \<Rightarrow> touch_detected clock (i + 1) ds s2)
      | (None, s1) \<Rightarrow> touch_detected clock (i + 1) ds s1)"

definition showDrives :: "(nat \<Rightarrow> string) \<Rightarrow> blockdev list option \<Rightarrow> fs_state \<Rightarrow> (js_error + table_row list) \<times> fs_state" where
  "showDrives clock lsblk s =
     (let detected = detectDrives lsblk
      in case getAllDrives s of
           (known, s1) \<Rightarrow>
             (case touch_detected clock 0 detected s1 of
                (Inl err, s2) \<Rightarrow> (Inl err, s2)
              | (Inr _, s2) \<Rightarrow> (Inr (displayDriveList detected known), s2)))"

section \<open>Auto-labeller (autoregister.js)\<close>

subsection \<open>String operations\<close>

text \<open>\<open>s.replace(/\([^)]*\)/g, '')\<close>: an opening parenthesis is removed up to the next closing one.\<close>

function remove_parens :: "string \<Rightarrow> string" where
  "remove_parens [] = []"
| "remove_parens (c # cs) =
     (if c = CHR ''('' \<and> CHR '')'' \<in> set cs
      then remove_parens (tl (dropWhile (\<lambda>x. x \<noteq> CHR '')'') cs))
      else c # remove_parens cs)"
  by pat_completeness auto
termination
proof (relation "measure length")
  fix c :: char and cs :: string
  have "length (tl (dropWhile (\<lambda>x. x \<noteq> CHR '')'') cs)) \<le> length cs"
    using length_dropWhile_le [of "\<lambda>x. x \<noteq> CHR '')''" cs] by simp
  then show "(tl (dropWhile (\<lambda>x. x \<noteq> CHR '')'') cs), c # cs) \<in> measure length" by simp
qed simp_all

text \<open>\<open>s.replace(/\s+/g, '-')\<close>: every maximal run of white space becomes one dash.\<close>

function collapse_space :: "string \<Rightarrow> string" where
  "collapse_space [] = []"
| "collapse_space (c # cs) =
     (if is_space c then CHR ''-'' # collapse_space (dropWhile is_space cs)
      else c # collapse_space cs)"
  by pat_completeness auto
termination
proof (relation "measure length")
  fix c :: char and cs :: string
  show "(dropWhile is_space cs, c # cs) \<in> measure length"
    using length_dropWhile_le [of is_space cs] by simp
qed simp_all

definition trim :: "string \<Rightarrow> string" where
  "trim t = rev (dropWhile is_space (rev (dropWhile is_space t)))"

text \<open>\<open>path.basename\<close> on POSIX: trailing slashes are dropped, then the last segment is taken.\<close>

definition basename :: "string \<Rightarrow> string" where
  "basename p = rev (takeWhile (\<lambda>c. c \<noteq> CHR ''/'') (dropWhile (\<lambda>c. c = CHR ''/'') (rev p)))"

definition is_label_char :: "char \<Rightarrow> bool" where
  \<comment> \<open>the class \<open>[a-zA-Z0-9-_]\<close>\<close>
  "is_label_char c =
     ((CHR ''a'' \<le> c \<and> c \<le> CHR ''z'') \<or> (CHR ''A'' \<le> c \<and> c \<le> CHR ''Z'') \<or> is_digit c
      \<or> c = CHR ''-'' \<or> c = CHR ''_'')"

definition sanitize_mount_name :: "string \<Rightarrow> string" where
  \<comment> \<open>\<open>mountName.replace(/[^a-zA-Z0-9-_]/g, '-')\<close>\<close>
  "sanitize_mount_name t = map (\<lambda>c. if is_label_char c then c else CHR ''-'') t"

definition to_lower :: "char \<Rightarrow> char" where
  "to_lower c =
     (let n = (of_char c :: nat)
      in if (65 \<le> n \<and> n \<le> 90) \<or> (192 \<le> n \<and> n \<le> 222 \<and> n \<noteq> 215) then char_of (n + 32) else c)"

definition toLowerCase :: "string \<Rightarrow> string" where
  "toLowerCase t = map to_lower t"

fun str_includes :: "string \<Rightarrow> string \<Rightarrow> bool" where
  "str_includes [] sub = (sub = [])"
| "str_includes (c # cs) sub = (prefix sub (c # cs) \<or> str_includes cs sub)"

text \<open>\<open>device.replace(/p?\d+$/, '')\<close>: the trailing digits go, and one \<open>p\<close> before them.\<close>

definition strip_partition_suffix :: "string \<Rightarrow> string" where
  "strip_partition_suffix dev =
     (let r = rev dev; rest = dropWhile is_digit r
      in if takeWhile is_digit r = [] then dev
         else rev (case rest of [] \<Rightarrow> [] | c # cs \<Rightarrow> if c = CHR ''p'' then cs else rest))"

subsection \<open>The content probe\<close>

text \<open>
  The parts of the object built by \<open>getDetailedDiskInfo\<close> that the labeller reads: the
  names of the storage pools and of the containers, the detected operating systems, the
  boot flag and the numbers of the boot partitions.
\<close>

record lxd_pool =
  pool_name :: string

record lxd_info =
  isLXD :: bool
  pools :: "lxd_pool list"
  containers :: "string list"

record os_detected =
  osType :: string

record detailed_info =
  bootable :: bool
  bootPartitions :: "string list"
  osInfo :: "os_detected list"
  lxdInfo :: "lxd_info option"

text \<open>
  What the operating system answers to the commands the labeller runs: \<open>blkid\<close> for the
  volume label of a device and \<open>ls\<close> on a mount path (\<open>None\<close> when \<open>execSync\<close> throws),
  and the probing done by \<open>diskinfo.getDetailedDiskInfo\<close> for a device path.
\<close>

record environment =
  blkid_label :: "string \<Rightarrow> string option"
  ls_mountpoint :: "string \<Rightarrow> string option"
  getDetailedDiskInfo :: "string \<Rightarrow> detailed_info"

subsection \<open>generateSmartLabel\<close>

text \<open>Each block of the function returns a label or falls through to the next one.\<close>

definition priority1_lxd :: "detailed_info \<Rightarrow> string option" where
  "priority1_lxd detailedInfo =
     (case lxdInfo detailedInfo of
        None \<Rightarrow> None
      | Some l \<Rightarrow>
          if isLXD l
          then (case pools l of p # _ \<Rightarrow> Some (''LXD-'' @ pool_name p) | [] \<Rightarrow> Some ''LXD-Storage'')
          else None)"

definition priority2_os :: "detailed_info \<Rightarrow> string option" where
  "priority2_os detailedInfo =
     (case osInfo detailedInfo of
        [] \<Rightarrow> None
      | os # _ \<Rightarrow>
          if osType os \<noteq> [] \<and> osType os \<noteq> ''Unknown'' \<and> \<not> str_includes (osType os) ''Unknown''
          then Some (take 20 (collapse_space (remove_parens (osType os))))
          else None)"

definition priority3_boot :: "detailed_info \<Rightarrow> string option" where
  "priority3_boot detailedInfo =
     (if bootable detailedInfo \<and> length (bootPartitions detailedInfo) > 0 then Some ''Boot-Drive'' else None)"

definition priority4_mount :: "drive_node \<Rightarrow> string option" where
  "priority4_mount drive =
     (if mountpoint drive \<noteq> [] \<and> mountpoint drive \<noteq> ''not mounted''
      then (let mountName = basename (mountpoint drive)
            in if mountName \<noteq> [] \<and> mountName \<noteq> ''/'' then Some (sanitize_mount_name mountName)
               else if mountpoint drive = ''/'' then Some ''Root-System''
               else None)
      else None)"

definition priority5_fslabel :: "environment \<Rightarrow> drive_node \<Rightarrow> string option" where
  "priority5_fslabel env drive =
     (if fstype drive = ''vfat'' \<or> fstype drive = ''ntfs''
      then (case blkid_label env (device drive) of
              None \<Rightarrow> None
            | Some out \<Rightarrow>
                (let label = trim out
                 in if label \<noteq> [] then Some (take 20 (collapse_space label)) else None))
      else None)"

definition priority6_model :: "drive_node \<Rightarrow> string option" where
  "priority6_model drive =
     (if model drive \<noteq> [] \<and> model drive \<noteq> ''Unknown Model'' \<and> model drive \<noteq> ''unknown''
      then Some (take 20 (collapse_space (model drive)))
      else None)"

definition fallback_label :: "drive_node \<Rightarrow> string" where
  "fallback_label drive = name drive @ ''-'' @ filter (\<lambda>c. c \<noteq> CHR ''.'') (dsize drive)"

definition generateSmartLabel :: "environment \<Rightarrow> drive_node \<Rightarrow> detailed_info \<Rightarrow> string" where
  "generateSmartLabel env drive detailedInfo =
     (case priority1_lxd detailedInfo of Some label \<Rightarrow> label | None \<Rightarrow>
      case priority2_os detailedInfo of Some label \<Rightarrow> label | None \<Rightarrow>
      case priority3_boot detailedInfo of Some label \<Rightarrow> label | None \<Rightarrow>
      case priority4_mount drive of Some label \<Rightarrow> label | None \<Rightarrow>
      case priority5_fslabel env drive of Some label \<Rightarrow> label | None \<Rightarrow>
      case priority6_model drive of Some label \<Rightarrow> label | None \<Rightarrow>
      fallback_label drive)"

subsection \<open>detectPurpose\<close>

definition purpose_lxd :: "detailed_info \<Rightarrow> string option" where
  "purpose_lxd detailedInfo =
     (case lxdInfo detailedInfo of
        None \<Rightarrow> None
      | Some l \<Rightarrow>
          if isLXD l
          then (let containerCount = length (containers l)
                in if containerCount > 0
                   then Some (''LXD Storage ('' @ decimal containerCount @ '' containers)'')
                   else Some ''LXD Storage'')
          else None)"

definition purpose_mount :: "drive_node \<Rightarrow> string option" where
  "purpose_mount drive =
     (if mountpoint drive \<noteq> [] \<and> mountpoint drive \<noteq> ''not mounted''
      then (let mount = toLowerCase (mountpoint drive)
            in if str_includes mount ''backup'' \<or> str_includes mount ''timeshift'' then Some ''Backup''
               else if str_includes mount ''media'' \<or> str_includes mount ''videos'' \<or> str_includes mount ''music''
                 then Some ''Media Storage''
               else if str_includes mount ''data'' \<or> str_includes mount ''storage'' then Some ''Data Storage''
               else if str_includes mount ''project'' \<or> str_includes mount ''dev'' then Some ''Development''
               else if mount = ''/'' then Some ''System Root''
               else None)
      else None)"

definition purpose_dirs :: "environment \<Rightarrow> drive_node \<Rightarrow> string option" where
  "purpose_dirs env drive =
     (if mountpoint drive \<noteq> [] \<and> mountpoint drive \<noteq> ''not mounted''
      then (case ls_mountpoint env (mountpoint drive) of
              None \<Rightarrow> None
            | Some out \<Rightarrow>
                (let dirs = trim out
                 in if str_includes dirs ''backup'' \<or> str_includes dirs ''Backup'' then Some ''Backup Storage''
                    else if str_includes dirs ''Media'' \<or> str_includes dirs ''media'' then Some ''Media Storage''
                    else if str_includes dirs ''Documents'' \<or> str_includes dirs ''documents''
                      then Some ''Document Storage''
                    else None))
      else None)"

definition detectPurpose :: "environment \<Rightarrow> drive_node \<Rightarrow> detailed_info \<Rightarrow> string" where
  "detectPurpose env drive detailedInfo =
     (case purpose_lxd detailedInfo of Some purpose \<Rightarrow> purpose | None \<Rightarrow>
      if length (osInfo detailedInfo) > 0 then ''Operating System''
      else if bootable detailedInfo then ''System Boot''
      else case purpose_mount drive of Some purpose \<Rightarrow> purpose | None \<Rightarrow>
      if fstype drive = ''swap'' then ''Swap Memory''
      else case purpose_dirs env drive of Some purpose \<Rightarrow> purpose | None \<Rightarrow>
      ''General Storage'')"

subsection \<open>Auto-registration\<close>

definition autoRegisterDrive :: "environment \<Rightarrow> drive_node \<Rightarrow> jsobject" where
  "autoRegisterDrive env drive =
     (let devicePath = strip_partition_suffix (device drive);
          detailedInfo = getDetailedDiskInfo env devicePath;
          label = generateSmartLabel env drive detailedInfo;
          purpose = detectPurpose env drive detailedInfo;
          driveType = getDriveType (name drive)
      in [''uuid'' \<mapsto> JStr (uuid drive),
          ''label'' \<mapsto> JStr label,
          ''size'' \<mapsto> JStr (dsize drive),
          ''type'' \<mapsto> JStr driveType,
          ''purpose'' \<mapsto> JStr purpose,
          ''device'' \<mapsto> JStr (device drive)])"

text \<open>
  Nothing in \<open>autoRegisterDrive\<close> throws on a node of the scanner, so the \<open>catch\<close> of the
  loop is never entered and every unregistered partition yields a record.
\<close>

definition autoRegisterAll :: "environment \<Rightarrow> drive_node list \<Rightarrow> jsobject list \<Rightarrow> jsobject list" where
  "autoRegisterAll env detectedDrives knownDrives =
     (let knownUUIDs = set (map (\<lambda>d. property d ''uuid'') knownDrives);
          partitions = filter (\<lambda>d. dtype d = ''part'') detectedDrives;
          unregistered = filter (\<lambda>d. Some (JStr (uuid d)) \<notin> knownUUIDs) partitions
      in map (autoRegisterDrive env) unregistered)"

text \<open>
  The branch "Auto-register all drives" of the menu action \<open>addDrive\<close> of index.js, once
  the user has confirmed: the scan, the selection of the unregistered partitions, and one
  \<open>storage.addDrive\<close> per proposed record.  The result counts the successful additions.
\<close>

fun register_all :: "(nat \<Rightarrow> string) \<Rightarrow> nat \<Rightarrow> jsobject list \<Rightarrow> fs_state \<Rightarrow> (js_error + nat) \<times> fs_state" where
  "register_all clock i [] s = (Inr 0, s)"
| "register_all clock i (driveData # rest) s =
     (case addDrive (clock i) driveData s of
        (Inl err, s1) \<Rightarrow> (Inl err, s1)
      | (Inr ok, s1) \<Rightarrow>
          (case register_all clock (i + 1) rest s1 of
             (Inl err, s2) \<Rightarrow> (Inl err, s2)
           | (Inr successCount, s2) \<Rightarrow> (Inr (if ok then successCount + 1 else successCount), s2)))"

definition menu_auto_register_all :: "environment \<Rightarrow> (nat \<Rightarrow> string) \<Rightarrow> blockdev list option \<Rightarrow> fs_state \<Rightarrow> (js_error + nat) \<times> fs_state" where
  "menu_auto_register_all env clock lsblk s =
     (let detected = detectDrives lsblk
      in case getAllDrives s of
           (known, s1) \<Rightarrow>
             (let knownUUIDs = set (map (\<lambda>d. property d ''uuid'') known);
                  partitions = filter (\<lambda>d. dtype d = ''part'') detected;
                  unregistered = filter (\<lambda>d. Some (JStr (uuid d)) \<notin> knownUUIDs) partitions
              in if length unregistered = 0 then (Inr 0, s1)
                 else (let autoRegistered = autoRegisterAll env unregistered known
                       in if length autoRegistered = 0 then (Inr 0, s1)
                          else register_all clock 0 autoRegistered s1)))"

section \<open>Notions used in the statements\<close>

text \<open>
  The devices on which \<open>processDrive\<close> is called during a scan: the entries of
  \<open>blockdevices\<close>, and the children of every visited device of type disk or part.
\<close>

inductive visited :: "blockdev list \<Rightarrow> blockdev \<Rightarrow> bool" for blockdevices where
  top: "d \<in> set blockdevices \<Longrightarrow> visited blockdevices d"
| child: "visited blockdevices p \<Longrightarrow> bd_type p = ''disk'' \<or> bd_type p = ''part'' \<Longrightarrow>
          c \<in> set (bd_children p) \<Longrightarrow> visited blockdevices c"

code_pred visited .

text \<open>No two records of a collection have uuids that \<open>===\<close> identifies.\<close>

fun uuids_distinct :: "jsobject list \<Rightarrow> bool" where
  "uuids_distinct [] = True"
| "uuids_distinct (d # ds) =
     (\<not> list_ex (\<lambda>e. strict_eq (property e ''uuid'') (property d ''uuid'')) ds \<and> uuids_distinct ds)"

text \<open>A store with nothing registered: no directory, no file, or the empty collection.\<close>

definition empty_store :: "fs_state \<Rightarrow> bool" where
  "empty_store s = (s = NoConfigDir \<or> s = NoDrivesFile \<or> s = DrivesFile (Registry []))"

text \<open>A sequence of calls of \<open>addDrive\<close>, each with the time of the call, and their results.\<close>

fun add_all :: "(string \<times> jsobject) list \<Rightarrow> fs_state \<Rightarrow> (js_error + bool) list \<times> fs_state" where
  "add_all [] s = ([], s)"
| "add_all ((timestamp, driveData) # rest) s =
     (case addDrive timestamp driveData s of
        (res, s1) \<Rightarrow> (case add_all rest s1 of (ress, s2) \<Rightarrow> (res # ress, s2)))"

text \<open>The record as \<open>addDrive\<close> stores it.\<close>

definition stamped :: "string \<times> jsobject \<Rightarrow> jsobject" where
  "stamped = (\<lambda>(timestamp, driveData).
     driveData(''first_seen'' \<mapsto> JStr timestamp, ''last_seen'' \<mapsto> JStr timestamp))"

text \<open>The calls of the store that a run of the tool makes, and the state after a run.\<close>

datatype store_op =
    Initialize
  | Add string jsobject
  | Touch string jsvalue
  | Remove jsvalue

fun apply_op :: "store_op \<Rightarrow> fs_state \<Rightarrow> fs_state" where
  "apply_op Initialize s = initStorage s"
| "apply_op (Add timestamp driveData) s = snd (addDrive timestamp driveData s)"
| "apply_op (Touch timestamp u) s = snd (updateLastSeen timestamp u s)"
| "apply_op (Remove u) s = snd (removeDrive u s)"

definition run_ops :: "store_op list \<Rightarrow> fs_state \<Rightarrow> fs_state" where
  "run_ops ops s = fold apply_op ops s"

text \<open>The uuids under which records are registered.\<close>

definition registered_uuids :: "fs_state \<Rightarrow> jsvalue set" where
  "registered_uuids s = set (map (\<lambda>d. property d ''uuid'') (fst (getAllDrives s)))"

text \<open>The invariant of a run: the file parses and the stored uuids are distinct.\<close>

definition store_ok :: "fs_state \<Rightarrow> bool" where
  "store_ok s = (s \<noteq> DrivesFile Unparseable \<and> uuids_distinct (fst (getAllDrives s)))"


text \<open>
  The content probe reports a storage pool: \<open>lxdInfo\<close> is present with \<open>isLXD\<close> set and
  at least one pool; the name is that of the first pool.
\<close>

definition pool_detected :: "detailed_info \<Rightarrow> bool" where
  "pool_detected detailedInfo =
     (case lxdInfo detailedInfo of None \<Rightarrow> False | Some l \<Rightarrow> isLXD l \<and> pools l \<noteq> [])"

definition first_pool_name :: "detailed_info \<Rightarrow> string" where
  "first_pool_name detailedInfo =
     (case lxdInfo detailedInfo of
        None \<Rightarrow> []
      | Some l \<Rightarrow> (case pools l of [] \<Rightarrow> [] | p # _ \<Rightarrow> pool_name p))"

text \<open>
  What the rules of section 4.4 look at, read off the node and the probe.  A container
  store is detected when \<open>lxdInfo\<close> is present with \<open>isLXD\<close> set.
\<close>

definition lxd_detected :: "detailed_info \<Rightarrow> bool" where
  "lxd_detected detailedInfo = (case lxdInfo detailedInfo of None \<Rightarrow> False | Some l \<Rightarrow> isLXD l)"

text \<open>
  An operating system is identified when the first detected system has a type that is
  not empty and does not mention \<open>Unknown\<close>.
\<close>

definition first_os_type :: "detailed_info \<Rightarrow> string" where
  "first_os_type detailedInfo = (case osInfo detailedInfo of [] \<Rightarrow> [] | os # _ \<Rightarrow> osType os)"

definition os_identified :: "detailed_info \<Rightarrow> bool" where
  "os_identified detailedInfo =
     (osInfo detailedInfo \<noteq> [] \<and> first_os_type detailedInfo \<noteq> [] \<and>
      \<not> str_includes (first_os_type detailedInfo) ''Unknown'')"

definition boot_flagged :: "detailed_info \<Rightarrow> bool" where
  "boot_flagged detailedInfo = (bootable detailedInfo \<and> bootPartitions detailedInfo \<noteq> [])"

text \<open>
  A mount path gives a label when the node is mounted and the path has a final segment or
  is the root.
\<close>

definition has_mount_label :: "drive_node \<Rightarrow> bool" where
  "has_mount_label drive =
     (mountpoint drive \<noteq> [] \<and> mountpoint drive \<noteq> ''not mounted'' \<and>
      (basename (mountpoint drive) \<noteq> [] \<or> mountpoint drive = ''/''))"

text \<open>
  The volume label: the trimmed answer of \<open>blkid\<close> for the node's device, asked for vfat
  and ntfs only; empty when there is none.
\<close>

definition volume_label_of :: "environment \<Rightarrow> drive_node \<Rightarrow> string" where
  "volume_label_of env drive =
     (if fstype drive = ''vfat'' \<or> fstype drive = ''ntfs''
      then (case blkid_label env (device drive) of None \<Rightarrow> [] | Some out \<Rightarrow> trim out)
      else [])"

definition model_known :: "drive_node \<Rightarrow> bool" where
  "model_known drive =
     (model drive \<noteq> [] \<and> model drive \<noteq> ''Unknown Model'' \<and> model drive \<noteq> ''unknown'')"

section \<open>Sample inputs\<close>

definition nothing_detected :: detailed_info where
  "nothing_detected = \<lparr> bootable = False, bootPartitions = [], osInfo = [], lxdInfo = None \<rparr>"

definition pool_info :: detailed_info where
  "pool_info = nothing_detected \<lparr> lxdInfo :=
     Some \<lparr> isLXD = True, pools = [\<lparr> pool_name = ''default'' \<rparr>], containers = [] \<rparr> \<rparr>"

definition sample_env :: "string \<Rightarrow> string \<Rightarrow> environment" where
  "sample_env volume_label listing =
     \<lparr> blkid_label = (\<lambda>dev. Some volume_label),
       ls_mountpoint = (\<lambda>path. Some listing),
       getDetailedDiskInfo = (\<lambda>dev. nothing_detected) \<rparr>"

definition sample_clock :: "nat \<Rightarrow> string" where
  "sample_clock i = ''2025-06-01T00:00:00.00'' @ decimal i @ ''Z''"

definition fat_node :: drive_node where
  "fat_node = \<lparr> name = ''sdc1'', dsize = ''3.7GB'', dtype = ''part'', mountpoint = ''not mounted'',
     fstype = ''vfat'', model = ''Unknown Model'', uuid = ''1A2B-3C4D'', device = ''/dev/sdc1'' \<rparr>"

definition mounted_node :: drive_node where
  "mounted_node = \<lparr> name = ''sdd1'', dsize = ''3.7GB'', dtype = ''part'', mountpoint = ''/mnt/usb'',
     fstype = ''ext4'', model = ''Unknown Model'', uuid = ''77aa'', device = ''/dev/sdd1'' \<rparr>"

definition lxd_without_pool :: detailed_info where
  "lxd_without_pool = nothing_detected \<lparr> lxdInfo :=
     Some \<lparr> isLXD = True, pools = [], containers = [] \<rparr> \<rparr>"

definition boot_info :: detailed_info where
  "boot_info = nothing_detected \<lparr> bootable := True, bootPartitions := [''1''] \<rparr>"

definition os_boot_info :: detailed_info where
  "os_boot_info = boot_info \<lparr> osInfo := [\<lparr> osType = ''Raspberry Pi OS (64-bit) Bookworm'' \<rparr>] \<rparr>"

definition mounted_fat_node :: drive_node where
  "mounted_fat_node = \<lparr> name = ''sde1'', dsize = ''29.8GB'', dtype = ''part'',
     mountpoint = ''/media/pi/My Disk'', fstype = ''vfat'', model = ''SanDisk Ultra'',
     uuid = ''5E6F-7A8B'', device = ''/dev/sde1'' \<rparr>"

definition root_node :: drive_node where
  "root_node = \<lparr> name = ''mmcblk0p2'', dsize = ''29.8GB'', dtype = ''part'', mountpoint = ''/'',
     fstype = ''ext4'', model = ''Unknown Model'', uuid = ''9c0d'', device = ''/dev/mmcblk0p2'' \<rparr>"

definition unmounted_fat_node :: drive_node where
  "unmounted_fat_node = mounted_fat_node \<lparr> mountpoint := ''not mounted'' \<rparr>"

definition sample_partition :: blockdev where
  "sample_partition = Blockdev ''sdb1'' 1536 ''part'' (Some ''/mnt/usb'') (Some ''vfat'') None None []"

definition sample_disk :: blockdev where
  "sample_disk = Blockdev ''sdb'' 1073741824 ''disk'' None None (Some ''SanDisk'') None [sample_partition]"

definition registered_partition :: blockdev where
  "registered_partition = Blockdev ''sdb2'' 0 ''part'' None (Some ''ext4'') None (Some ''abc-123'') []"

definition early_clock :: "nat \<Rightarrow> string" where
  "early_clock i = ''2025-01-01T00:00:00.000Z''"

definition late_clock :: "nat \<Rightarrow> string" where
  "late_clock i = ''2025-12-01T00:00:00.000Z''"

definition sample_record :: jsobject where
  "sample_record = [''uuid'' \<mapsto> JStr ''abc-123'', ''label'' \<mapsto> JStr ''Test'', ''shelf'' \<mapsto> JStr ''B2'']"

definition other_record :: jsobject where
  "other_record = [''uuid'' \<mapsto> JStr ''def-456'', ''label'' \<mapsto> JStr ''Other'']"

section \<open>Size formatting\<close>

lemma decimal_digit: "n < 10 \<Longrightarrow> decimal n = [digit_char n]"
  by (simp add: decimal.simps)

lemma decimal_step: "10 \<le> n \<Longrightarrow> decimal n = decimal (n div 10) @ [digit_char (n mod 10)]"
  by (subst decimal.simps) simp

lemma formatSize_loop_stop:
  "sz < 1024 \<or> 4 \<le> unitIndex \<Longrightarrow> formatSize_loop sz unitIndex = (sz, unitIndex)"
  by (subst formatSize_loop.simps) (auto simp: units_def)

lemma formatSize_loop_step:
  "1024 \<le> sz \<Longrightarrow> unitIndex < 4 \<Longrightarrow>
   formatSize_loop sz unitIndex = formatSize_loop (sz / 1024) (unitIndex + 1)"
  by (subst formatSize_loop.simps) (auto simp: units_def)

lemma floor_rat_numeral: "\<lfloor>numeral a / numeral b :: rat\<rfloor> = numeral a div numeral b"
  using floor_divide_of_int_eq [of "numeral a" "numeral b", where ?'a = rat] by simp

lemmas formatSize_eval =
  floor_rat_numeral formatSize_def formatSize_loop_stop formatSize_loop_step toFixed1_def
  decimal_digit decimal_step digit_char_def units_def

text \<open>After \<open>d\<close> divisions the loop has moved \<open>d\<close> units up the ladder.\<close>

lemma formatSize_loop_ladder:
  "j + d \<le> 4 \<Longrightarrow> (d = 0 \<or> 1024 ^ d \<le> sz) \<Longrightarrow> (sz < 1024 ^ (d + 1) \<or> j + d = 4) \<Longrightarrow>
   formatSize_loop sz j = (sz / 1024 ^ d, j + d)"
proof (induction d arbitrary: sz j)
  case 0
  then show ?case by (simp add: formatSize_loop_stop)
next
  case (Suc d)
  have "(1024::rat) * 1 \<le> 1024 * 1024 ^ d" by (intro mult_left_mono one_le_power) simp_all
  moreover have "1024 * 1024 ^ d \<le> sz" using Suc.prems(2) by simp
  ultimately have big: "1024 \<le> sz" by linarith
  from Suc.prems have j: "j < 4" by simp
  have "formatSize_loop (sz / 1024) (j + 1) = (sz / 1024 / 1024 ^ d, j + 1 + d)"
  proof (rule Suc.IH)
    show "j + 1 + d \<le> 4" using Suc.prems by simp
    show "d = 0 \<or> 1024 ^ d \<le> sz / 1024" using Suc.prems by (simp add: le_divide_eq)
    show "sz / 1024 < 1024 ^ (d + 1) \<or> j + 1 + d = 4" using Suc.prems by (auto simp: divide_less_eq)
  qed
  with big j show ?case by (simp add: formatSize_loop_step)
qed

lemma formatSize_ladder:
  assumes "k \<le> 4" and "k = 0 \<or> 1024 ^ k \<le> bytes" and "bytes < 1024 ^ (k + 1) \<or> k = 4"
  shows "formatSize bytes = toFixed1 (of_nat bytes / 1024 ^ k) @ units ! k"
proof -
  have e: "(1024::rat) ^ n = of_nat (1024 ^ n)" for n by simp
  have 1: "k = 0 \<or> (1024::rat) ^ k \<le> of_nat bytes"
    using assms(2) unfolding e of_nat_le_iff .
  have 2: "(of_nat bytes :: rat) < 1024 ^ (k + 1) \<or> 0 + k = 4"
    using assms(3) unfolding e of_nat_less_iff by simp
  show ?thesis
    using formatSize_loop_ladder [of 0 k "of_nat bytes"] assms(1) 1 2
    by (simp add: formatSize_def)
qed

text \<open>
  C8.  \<open>formatSize\<close> divides by 1024 up the ladder B, KB, MB, GB, TB and prints one
  decimal: a byte count in the range of the \<open>k\<close>-th unit (from \<open>1024^k\<close>, below
  \<open>1024^(k+1)\<close>; the last unit takes everything above) is printed as the count divided by
  \<open>1024^k\<close>, rounded to one decimal, followed by that unit.  In particular 0 gives 0.0B,
  1536 gives 1.5KB and 1073741824 gives 1.0GB.
\<close>

theorem formatSize_unit_ladder:
  "formatSize 0 = ''0.0B'' \<and> formatSize 1536 = ''1.5KB'' \<and> formatSize 1073741824 = ''1.0GB'' \<and>
   (k \<le> 4 \<and> (k = 0 \<or> 1024 ^ k \<le> bytes) \<and> (bytes < 1024 ^ (k + 1) \<or> k = 4) \<longrightarrow>
      formatSize bytes = toFixed1 (of_nat bytes / 1024 ^ k) @ units ! k)"
proof -
  have "formatSize 0 = ''0.0B''" by (simp add: formatSize_eval)
  moreover have "formatSize 1536 = ''1.5KB''" by (simp add: formatSize_eval)
  moreover have "formatSize 1073741824 = ''1.0GB''" by (simp add: formatSize_eval)
  ultimately show ?thesis using formatSize_ladder [of k bytes] by blast
qed

theorem formatSize_unit_ladder_witness:
  "(2::nat) \<le> 4 \<and> 1024 ^ 2 \<le> (5347738::nat) \<and> (5347738::nat) < 1024 ^ (2 + 1) \<and>
   formatSize 5347738 = ''5.1MB''"
proof -
  have "toFixed1 (of_nat 5347738 / 1024 ^ 2) @ units ! 2 = ''5.1MB''"
    by (simp add: formatSize_eval)
  then show ?thesis using formatSize_unit_ladder [of 2 5347738] by simp
qed

section \<open>Order of the scan\<close>

lemma fold_processDrive:
  "(\<And>c acc. c \<in> set cs \<Longrightarrow> processDrive c acc = acc @ processDrive c []) \<Longrightarrow>
   fold processDrive cs acc = acc @ concat (map (\<lambda>c. processDrive c []) cs)"
proof (induction cs arbitrary: acc)
  case Nil
  show ?case by simp
next
  case (Cons c cs)
  have 1: "processDrive c acc = acc @ processDrive c []" by (rule Cons.prems) simp
  have 2: "fold processDrive cs (acc @ processDrive c []) =
      (acc @ processDrive c []) @ concat (map (\<lambda>c. processDrive c []) cs)"
    by (rule Cons.IH, rule Cons.prems) simp
  have "fold processDrive (c # cs) acc = fold processDrive cs (processDrive c acc)" by simp
  also have "\<dots> = fold processDrive cs (acc @ processDrive c [])" by (subst 1) (rule refl)
  also have "\<dots> = (acc @ processDrive c []) @ concat (map (\<lambda>c. processDrive c []) cs)" by (rule 2)
  also have "\<dots> = acc @ concat (map (\<lambda>c. processDrive c []) (c # cs))" by simp
  finally show ?case .
qed

text \<open>What a call pushes does not depend on what the array already holds.\<close>

lemma processDrive_append: "processDrive d acc = acc @ processDrive d []"
proof (induction d arbitrary: acc)
  case (Blockdev nm sz ty mp fs md uu children)
  define n where "n = make_node (Blockdev nm sz ty mp fs md uu children)"
  have ih: "\<And>c acc. c \<in> set children \<Longrightarrow> processDrive c acc = acc @ processDrive c []"
    using Blockdev.IH by blast
  have 1: "fold processDrive children (acc @ [n]) =
      (acc @ [n]) @ concat (map (\<lambda>c. processDrive c []) children)"
    by (rule fold_processDrive) (rule ih)
  have 2: "fold processDrive children [n] = [n] @ concat (map (\<lambda>c. processDrive c []) children)"
    by (rule fold_processDrive) (rule ih)
  show ?case
    unfolding processDrive.simps n_def [symmetric] append_Nil 1 2 by simp
qed

text \<open>A device of type disk or part is pushed first, then its children in order.\<close>

lemma processDrive_flat:
  "processDrive d [] =
     (if bd_type d \<noteq> ''disk'' \<and> bd_type d \<noteq> ''part'' then []
      else make_node d # concat (map (\<lambda>c. processDrive c []) (bd_children d)))"
proof (cases d)
  case (Blockdev nm sz ty mp fs md uu children)
  have "fold processDrive children [make_node d] =
      [make_node d] @ concat (map (\<lambda>c. processDrive c []) children)"
    by (rule fold_processDrive) (rule processDrive_append)
  then show ?thesis unfolding Blockdev processDrive.simps by auto
qed

lemma detectDrives_flat:
  "detectDrives (Some bds) = concat (map (\<lambda>c. processDrive c []) bds)"
proof -
  have "fold processDrive bds [] = [] @ concat (map (\<lambda>c. processDrive c []) bds)"
    by (rule fold_processDrive) (rule processDrive_append)
  then show ?thesis by (simp add: detectDrives_def)
qed

lemma concat_map_split:
  "c \<in> set cs \<Longrightarrow> \<exists>a b. concat (map f cs) = a @ f c @ b"
proof -
  assume "c \<in> set cs"
  then obtain xs ys where "cs = xs @ c # ys" by (meson split_list)
  then have "concat (map f cs) = concat (map f xs) @ f c @ concat (map f ys)" by simp
  then show ?thesis by blast
qed

text \<open>The nodes pushed for a visited device form one segment of the result.\<close>

lemma visited_segment:
  "visited bds d \<Longrightarrow> \<exists>pre post. detectDrives (Some bds) = pre @ processDrive d [] @ post"
proof (induction rule: visited.induct)
  case (top d)
  then show ?case
    using concat_map_split [of d bds "\<lambda>c. processDrive c []"] by (simp add: detectDrives_flat)
next
  case (child p c)
  then obtain pre post where 1: "detectDrives (Some bds) = pre @ processDrive p [] @ post" by blast
  obtain a b where 2: "concat (map (\<lambda>c. processDrive c []) (bd_children p)) = a @ processDrive c [] @ b"
    using concat_map_split [OF child.hyps(3)] by blast
  have "processDrive p [] = make_node p # a @ processDrive c [] @ b"
    using child.hyps(2) 2 by (subst processDrive_flat) auto
  then have "detectDrives (Some bds) = (pre @ make_node p # a) @ processDrive c [] @ (b @ post)"
    using 1 by simp
  then show ?case by blast
qed

lemma visited_lift: "visited cs e \<Longrightarrow> (\<And>c. c \<in> set cs \<Longrightarrow> visited bds c) \<Longrightarrow> visited bds e"
  by (induction rule: visited.induct) (auto intro: visited.child)

lemma processDrive_nodes:
  "n \<in> set (processDrive d []) \<Longrightarrow>
   \<exists>e. visited [d] e \<and> (bd_type e = ''disk'' \<or> bd_type e = ''part'') \<and> n = make_node e"
proof (induction d arbitrary: n)
  case (Blockdev nm sz ty mp fs md uu children)
  define d where "d = Blockdev nm sz ty mp fs md uu children"
  have ok: "bd_type d = ''disk'' \<or> bd_type d = ''part''"
    using Blockdev.prems unfolding d_def [symmetric] by (subst (asm) processDrive_flat) (auto split: if_splits)
  have top: "visited [d] d" by (rule visited.top) simp
  have "n = make_node d \<or> (\<exists>c\<in>set children. n \<in> set (processDrive c []))"
    using Blockdev.prems unfolding d_def [symmetric]
    by (subst (asm) processDrive_flat) (auto simp: d_def split: if_splits)
  then show ?case
  proof
    assume "n = make_node d"
    then show ?thesis using top ok unfolding d_def by blast
  next
    assume "\<exists>c\<in>set children. n \<in> set (processDrive c [])"
    then obtain c where c: "c \<in> set children" and n: "n \<in> set (processDrive c [])" by blast
    obtain e where e: "visited [c] e" "bd_type e = ''disk'' \<or> bd_type e = ''part''" "n = make_node e"
      using Blockdev.IH [OF c n] by blast
    have "visited [d] c" using top ok c by (auto intro: visited.child simp: d_def)
    then have "visited [d] e" using visited_lift [OF e(1)] by simp
    then show ?thesis using e unfolding d_def by blast
  qed
qed

text \<open>The result holds exactly the nodes of the visited devices of type disk or part.\<close>

lemma detectDrives_nodes:
  "set (detectDrives (Some bds)) =
     make_node ` {e. visited bds e \<and> (bd_type e = ''disk'' \<or> bd_type e = ''part'')}"
proof (intro set_eqI iffI)
  fix n assume "n \<in> set (detectDrives (Some bds))"
  then obtain d where d: "d \<in> set bds" and n: "n \<in> set (processDrive d [])"
    by (auto simp: detectDrives_flat)
  obtain e where e: "visited [d] e" "bd_type e = ''disk'' \<or> bd_type e = ''part''" "n = make_node e"
    using processDrive_nodes [OF n] by blast
  have "visited bds e" using visited_lift [OF e(1)] d by (auto intro: visited.top)
  then show "n \<in> make_node ` {e. visited bds e \<and> (bd_type e = ''disk'' \<or> bd_type e = ''part'')}"
    using e by blast
next
  fix n assume "n \<in> make_node ` {e. visited bds e \<and> (bd_type e = ''disk'' \<or> bd_type e = ''part'')}"
  then obtain e where e: "visited bds e" "bd_type e = ''disk'' \<or> bd_type e = ''part''" "n = make_node e"
    by blast
  obtain pre post where "detectDrives (Some bds) = pre @ processDrive e [] @ post"
    using visited_segment [OF e(1)] by blast
  moreover have "make_node e \<in> set (processDrive e [])"
    using e(2) by (subst processDrive_flat) auto
  ultimately show "n \<in> set (detectDrives (Some bds))" using e(3) by simp
qed

text \<open>
  C10.  In the list returned by \<open>detectDrives\<close>, the node of a partition (of any device
  of type disk or part that the scan reaches below another one) comes after the node of
  its parent: the result splits into a part ending before the parent's node, the parent's
  node, and a later part that holds the child's node.
\<close>

theorem scan_parent_before_child:
  assumes "visited blockdevices p"
    and "bd_type p = ''disk'' \<or> bd_type p = ''part''"
    and "c \<in> set (bd_children p)"
    and "bd_type c = ''disk'' \<or> bd_type c = ''part''"
  shows "\<exists>pre mid post.
           detectDrives (Some blockdevices) = pre @ make_node p # mid @ make_node c # post"
proof -
  obtain pre post where 1: "detectDrives (Some blockdevices) = pre @ processDrive p [] @ post"
    using visited_segment [OF assms(1)] by blast
  obtain a b where 2: "concat (map (\<lambda>c. processDrive c []) (bd_children p)) = a @ processDrive c [] @ b"
    using concat_map_split [OF assms(3)] by blast
  have 3: "processDrive p [] = make_node p # a @ processDrive c [] @ b"
    using assms(2) 2 by (subst processDrive_flat) auto
  define r where "r = concat (map (\<lambda>c. processDrive c []) (bd_children c))"
  have 4: "processDrive c [] = make_node c # r"
    unfolding r_def using assms(4) by (subst processDrive_flat) auto
  have "detectDrives (Some blockdevices) = pre @ make_node p # a @ make_node c # (r @ b @ post)"
    using 1 3 4 by simp
  then show ?thesis by blast
qed

theorem scan_parent_before_child_witness:
  "visited [sample_disk] sample_disk \<and> bd_type sample_disk = ''disk'' \<and>
   sample_partition \<in> set (bd_children sample_disk) \<and> bd_type sample_partition = ''part'' \<and>
   (\<exists>pre mid post. detectDrives (Some [sample_disk]) =
      pre @ make_node sample_disk # mid @ make_node sample_partition # post)"
proof -
  have v: "visited [sample_disk] sample_disk" by (rule visited.top) simp
  have t: "bd_type sample_disk = ''disk'' \<or> bd_type sample_disk = ''part''"
    by (simp add: sample_disk_def)
  have c: "sample_partition \<in> set (bd_children sample_disk)" by (simp add: sample_disk_def)
  have u: "bd_type sample_partition = ''disk'' \<or> bd_type sample_partition = ''part''"
    by (simp add: sample_partition_def)
  show ?thesis
    using scan_parent_before_child [OF v t c u] v c
    by (simp add: sample_disk_def sample_partition_def)
qed



section \<open>The registry store\<close>

lemma initStorage_cases [simp]:
  "initStorage NoConfigDir = DrivesFile (Registry [])"
  "initStorage NoDrivesFile = DrivesFile (Registry [])"
  "initStorage (DrivesFile f) = DrivesFile f"
  by (simp_all add: initStorage_def)

lemma parse_drives_file_simps [simp]:
  "parse_drives_file (DrivesFile Unparseable) = Inl SyntaxError"
  "parse_drives_file (DrivesFile (Registry ds)) = Inr ds"
  by (simp_all add: parse_drives_file_def)

lemma getAllDrives_simps [simp]:
  "getAllDrives NoConfigDir = ([], DrivesFile (Registry []))"
  "getAllDrives NoDrivesFile = ([], DrivesFile (Registry []))"
  "getAllDrives (DrivesFile Unparseable) = ([], DrivesFile Unparseable)"
  "getAllDrives (DrivesFile (Registry ds)) = (ds, DrivesFile (Registry ds))"
  by (simp_all add: getAllDrives_def)

lemma property_upd [simp]: "property (d(k \<mapsto> v)) k' = (if k' = k then Some v else property d k')"
  by (simp add: property_def)

lemma strict_eq_sym: "strict_eq a b = strict_eq b a"
  by (induction a b rule: strict_eq.induct) auto

lemma strict_eq_primitive: "primitive v \<Longrightarrow> strict_eq w v = (w = v)"
  by (induction w v rule: strict_eq.induct) auto

lemma ex_image_eq: "(\<exists>d\<in>A. g d = v) = (v \<in> g ` A)"
  by auto

lemma store_cases:
  obtains "s = NoConfigDir" | "s = NoDrivesFile" | "s = DrivesFile Unparseable"
  | ds where "s = DrivesFile (Registry ds)"
  by (cases s) (auto intro: file_content.exhaust)

text \<open>
  On a store whose file parses (or does not exist yet), with a record whose uuid is a
  primitive value: when a stored record has that uuid, \<open>addDrive\<close> returns false and
  leaves the file as it is; otherwise it returns true and the collection is the old one
  followed by the record with \<open>first_seen\<close> and \<open>last_seen\<close> both set to the time of the
  call.
\<close>

lemma addDrive_duplicate_or_stamp:
  assumes "s \<noteq> DrivesFile Unparseable" and "primitive (property driveData ''uuid'')"
  shows "if property driveData ''uuid'' \<in> set (map (\<lambda>d. property d ''uuid'') (fst (getAllDrives s)))
         then addDrive timestamp driveData s = (Inr False, s)
         else addDrive timestamp driveData s =
                (Inr True, DrivesFile (Registry (fst (getAllDrives s) @
                   [driveData(''first_seen'' \<mapsto> JStr timestamp, ''last_seen'' \<mapsto> JStr timestamp)])))"
proof -
  have ex: "list_ex (\<lambda>d. strict_eq (property d ''uuid'') (property driveData ''uuid'')) ds
      = (property driveData ''uuid'' \<in> set (map (\<lambda>d. property d ''uuid'') ds))" for ds
    using assms(2) by (simp add: list_ex_iff strict_eq_primitive ex_image_eq)
  show ?thesis
    using assms(1) by (cases s rule: store_cases) (simp_all add: addDrive_def ex)
qed

text \<open>
  C4.  The file that \<open>JSON.parse\<close> rejects is a store state on which the second half of
  the property fails: no record is registered there, so the uuid of the record is not
  present, yet \<open>addDrive\<close> does not succeed and stamps nothing; it throws the
  \<open>SyntaxError\<close> and leaves the file as it is.
\<close>

theorem addDrive_corrupt_store:
  "fst (getAllDrives (DrivesFile Unparseable)) = [] \<and>
   property driveData ''uuid'' \<notin>
     set (map (\<lambda>d. property d ''uuid'') (fst (getAllDrives (DrivesFile Unparseable)))) \<and>
   addDrive timestamp driveData (DrivesFile Unparseable) = (Inl SyntaxError, DrivesFile Unparseable)"
  by (simp add: addDrive_def)

lemma uuids_distinct_cong:
  "map (\<lambda>d. property d ''uuid'') xs = map (\<lambda>d. property d ''uuid'') ys \<Longrightarrow> uuids_distinct xs = uuids_distinct ys"
proof (induction xs arbitrary: ys)
  case Nil
  then show ?case by simp
next
  case (Cons x xs)
  then obtain y ys' where ys: "ys = y # ys'" and xy: "property x ''uuid'' = property y ''uuid''"
    and m: "map (\<lambda>d. property d ''uuid'') xs = map (\<lambda>d. property d ''uuid'') ys'"
    by (cases ys) auto
  have "list_ex (\<lambda>e. strict_eq (property e ''uuid'') (property x ''uuid'')) xs
      = list_ex (\<lambda>u. strict_eq u (property x ''uuid'')) (map (\<lambda>d. property d ''uuid'') xs)"
    by (simp add: list_ex_iff)
  also have "\<dots> = list_ex (\<lambda>e. strict_eq (property e ''uuid'') (property y ''uuid'')) ys'"
    unfolding m xy by (simp add: list_ex_iff)
  finally show ?case using Cons.IH [OF m] by (simp add: ys)
qed

lemma uuids_distinct_append:
  "uuids_distinct (xs @ ys) =
     (uuids_distinct xs \<and> uuids_distinct ys \<and>
      (\<forall>x\<in>set xs. \<forall>y\<in>set ys. \<not> strict_eq (property y ''uuid'') (property x ''uuid'')))"
  by (induction xs) (auto simp: list_ex_iff)

lemma uuids_distinct_filter: "uuids_distinct ds \<Longrightarrow> uuids_distinct (filter P ds)"
  by (induction ds) (auto simp: list_ex_iff)

lemma map_uuid_update_first:
  "(\<And>d. property (f d) ''uuid'' = property d ''uuid'') \<Longrightarrow>
   map (\<lambda>d. property d ''uuid'') (update_first P f ds) = map (\<lambda>d. property d ''uuid'') ds"
  by (induction ds) auto

lemma uuids_distinct_primitive:
  "\<forall>d\<in>set ds. primitive (property d ''uuid'') \<Longrightarrow> uuids_distinct ds = distinct (map (\<lambda>d. property d ''uuid'') ds)"
  by (induction ds) (simp_all add: list_ex_iff strict_eq_primitive ex_image_eq)

lemma apply_op_ok: "store_ok s \<Longrightarrow> store_ok (apply_op op s)"
proof (cases s rule: store_cases)
  case 1
  then show ?thesis 
    by (cases op) (simp_all add: store_ok_def addDrive_def updateLastSeen_def removeDrive_def)
next
  case 2
  then show ?thesis
    by (cases op) (simp_all add: store_ok_def addDrive_def updateLastSeen_def removeDrive_def)
next
  case 3
  assume "store_ok s"
  with 3 show ?thesis by (simp add: store_ok_def)
next
  case (4 ds)
  assume "store_ok s"
  with 4 have d: "uuids_distinct ds" by (simp add: store_ok_def)
  show ?thesis
  proof (cases op)
    case Initialize
    with 4 d show ?thesis by (simp add: store_ok_def)
  next
    case (Add t r)
    have "uuids_distinct (ds @ [r(''first_seen'' \<mapsto> JStr t, ''last_seen'' \<mapsto> JStr t)])"
      if "\<not> list_ex (\<lambda>d. strict_eq (property d ''uuid'') (property r ''uuid'')) ds"
      using that d by (auto simp: uuids_distinct_append list_ex_iff strict_eq_sym)
    with 4 d Add show ?thesis by (simp add: store_ok_def addDrive_def)
  next
    case (Touch t u)
    have "uuids_distinct (update_first (\<lambda>d. strict_eq (property d ''uuid'') u) (\<lambda>d. d(''last_seen'' \<mapsto> JStr t)) ds)"
      using d uuids_distinct_cong [OF map_uuid_update_first, of "\<lambda>d. d(''last_seen'' \<mapsto> JStr t)" _ ds]
      by simp
    with 4 d Touch show ?thesis by (simp add: store_ok_def updateLastSeen_def split: option.split)
  next
    case (Remove u)
    with 4 d show ?thesis by (simp add: store_ok_def removeDrive_def uuids_distinct_filter)
  qed
qed

lemma run_ops_ok: "store_ok s \<Longrightarrow> store_ok (run_ops ops s)"
  unfolding run_ops_def by (induction ops arbitrary: s) (simp_all add: apply_op_ok)

text \<open>
  C9.  From a store with nothing registered, after any sequence of \<open>initStorage\<close>,
  \<open>addDrive\<close>, \<open>updateLastSeen\<close> and \<open>removeDrive\<close>, no two stored records have uuids
  that \<open>===\<close> identifies; when the stored uuids are primitive values (strings, in
  practice) they are pairwise different.
\<close>

theorem store_uuids_distinct:
  assumes "empty_store s"
  shows "uuids_distinct (fst (getAllDrives (run_ops ops s))) \<and>
         ((\<forall>d\<in>set (fst (getAllDrives (run_ops ops s))). primitive (property d ''uuid'')) \<longrightarrow>
            distinct (map (\<lambda>d. property d ''uuid'') (fst (getAllDrives (run_ops ops s)))))"
proof -
  have "store_ok s" using assms by (auto simp: empty_store_def store_ok_def)
  then have "store_ok (run_ops ops s)" by (rule run_ops_ok)
  then show ?thesis by (auto simp: store_ok_def uuids_distinct_primitive)
qed


lemma stamped_uuid [simp]: "property (stamped c) ''uuid'' = property (snd c) ''uuid''"
  by (cases c) (simp add: stamped_def)

lemma map_uuid_stamped:
  "map (\<lambda>d. property d ''uuid'') (map stamped calls) = map (\<lambda>d. property d ''uuid'') (map snd calls)"
  by simp

lemma add_all_registry:
  "uuids_distinct (ds @ map snd calls) \<Longrightarrow>
   add_all calls (DrivesFile (Registry ds)) =
     (map (\<lambda>c. Inr True) calls, DrivesFile (Registry (ds @ map stamped calls)))"
proof (induction calls arbitrary: ds)
  case Nil
  show ?case by simp
next
  case (Cons c calls)
  obtain t r where c: "c = (t, r)" by (cases c)
  from Cons.prems have fresh: "\<not> list_ex (\<lambda>d. strict_eq (property d ''uuid'') (property r ''uuid'')) ds"
    by (auto simp: uuids_distinct_append list_ex_iff c strict_eq_sym)
  have "map (\<lambda>d. property d ''uuid'') ((ds @ [stamped c]) @ map snd calls)
      = map (\<lambda>d. property d ''uuid'') (ds @ map snd (c # calls))"
    by simp
  then have "uuids_distinct ((ds @ [stamped c]) @ map snd calls)"
    using Cons.prems uuids_distinct_cong by blast
  then have "add_all calls (DrivesFile (Registry (ds @ [stamped c]))) =
     (map (\<lambda>c. Inr True) calls, DrivesFile (Registry ((ds @ [stamped c]) @ map stamped calls)))"
    by (rule Cons.IH)
  moreover have "addDrive t r (DrivesFile (Registry ds)) = (Inr True, DrivesFile (Registry (ds @ [stamped c])))"
    using fresh by (simp add: addDrive_def c stamped_def)
  ultimately show ?case by (simp add: c)
qed

lemma add_all_empty_store:
  assumes "empty_store s" and "uuids_distinct (map snd calls)"
  shows "fst (add_all calls s) = map (\<lambda>c. Inr True) calls"
    and "fst (getAllDrives (snd (add_all calls s))) = map stamped calls"
proof -
  have reg: "add_all calls (DrivesFile (Registry [])) =
      (map (\<lambda>c. Inr True) calls, DrivesFile (Registry ([] @ map stamped calls)))"
    by (rule add_all_registry) (simp add: assms(2))
  have init: "addDrive t r s = addDrive t r (DrivesFile (Registry []))" for t r
    using assms(1) by (auto simp: empty_store_def addDrive_def)
  have "fst (add_all calls s) = map (\<lambda>c. Inr True) calls \<and>
      fst (getAllDrives (snd (add_all calls s))) = map stamped calls"
  proof (cases calls)
    case Nil
    then show ?thesis using assms(1) by (auto simp: empty_store_def)
  next
    case (Cons c rest)
    obtain t r where c: "c = (t, r)" by (cases c)
    have "add_all calls s = add_all calls (DrivesFile (Registry []))"
      by (simp add: Cons c init)
    then show ?thesis by (simp add: reg)
  qed
  then show "fst (add_all calls s) = map (\<lambda>c. Inr True) calls"
    and "fst (getAllDrives (snd (add_all calls s))) = map stamped calls" by simp_all
qed

lemma find_stamped:
  "uuids_distinct (map snd calls) \<Longrightarrow> c \<in> set calls \<Longrightarrow> primitive (property (snd c) ''uuid'') \<Longrightarrow>
   find (\<lambda>d. strict_eq (property d ''uuid'') (property (snd c) ''uuid'')) (map stamped calls) = Some (stamped c)"
proof (induction calls)
  case Nil
  then show ?case by simp
next
  case (Cons a calls)
  show ?case
  proof (cases "a = c")
    case True
    then show ?thesis using Cons.prems(3) by (simp add: strict_eq_primitive)
  next
    case False
    then have mem: "c \<in> set calls" using Cons.prems(2) by simp
    have "\<not> strict_eq (property (snd c) ''uuid'') (property (snd a) ''uuid'')"
      using Cons.prems(1) mem by (auto simp: list_ex_iff)
    then have "\<not> strict_eq (property (snd a) ''uuid'') (property (snd c) ''uuid'')"
      by (simp add: strict_eq_sym)
    moreover have "find (\<lambda>d. strict_eq (property d ''uuid'') (property (snd c) ''uuid'')) (map stamped calls) = Some (stamped c)"
      using Cons.IH Cons.prems mem by simp
    ultimately show ?thesis by simp
  qed
qed

text \<open>
  C3.  Starting from a store with nothing registered, a sequence of \<open>addDrive\<close> calls
  with pairwise distinct uuids succeeds call by call; \<open>getAllDrives\<close> then returns the
  records in call order, each as \<open>addDrive\<close> stored it: every property of the record
  passed in is kept with its value, whatever its name, except that \<open>first_seen\<close> and
  \<open>last_seen\<close> hold the time of the call.  \<open>getDriveByUUID\<close> finds each record by its
  (primitive) uuid.
\<close>

theorem add_sequence_round_trip:
  assumes "empty_store s" and "uuids_distinct (map snd calls)"
  shows "fst (add_all calls s) = map (\<lambda>c. Inr True) calls \<and>
         fst (getAllDrives (snd (add_all calls s))) = map stamped calls \<and>
         (\<forall>c\<in>set calls. primitive (property (snd c) ''uuid'') \<longrightarrow>
            fst (getDriveByUUID (property (snd c) ''uuid'') (snd (add_all calls s))) = Some (stamped c)) \<and>
         (\<forall>c\<in>set calls. \<forall>key. key \<noteq> ''first_seen'' \<and> key \<noteq> ''last_seen'' \<longrightarrow>
            property (stamped c) key = property (snd c) key) \<and>
         (\<forall>c\<in>set calls. property (stamped c) ''first_seen'' = Some (JStr (fst c)) \<and>
            property (stamped c) ''last_seen'' = Some (JStr (fst c)))"
proof -
  note all = add_all_empty_store [OF assms]
  have get: "fst (getDriveByUUID (property (snd c) ''uuid'') (snd (add_all calls s))) = Some (stamped c)"
    if "c \<in> set calls" "primitive (property (snd c) ''uuid'')" for c
  proof -
    have "fst (getDriveByUUID u st) = find (\<lambda>d. strict_eq (property d ''uuid'') u) (fst (getAllDrives st))" for u st
      by (simp add: getDriveByUUID_def split: prod.split)
    then show ?thesis using find_stamped [OF assms(2) that] all(2) by simp
  qed
  have keep: "property (stamped c) key = property (snd c) key"
    if "key \<noteq> ''first_seen'' \<and> key \<noteq> ''last_seen''" for c key
    using that by (cases c) (simp add: stamped_def)
  have stamp: "property (stamped c) ''first_seen'' = Some (JStr (fst c)) \<and>
            property (stamped c) ''last_seen'' = Some (JStr (fst c))" for c
    by (cases c) (simp add: stamped_def)
  show ?thesis using all get keep stamp by blast
qed

text \<open>
  C1.  On a drives file that \<open>JSON.parse\<close> rejects, \<open>getAllDrives\<close> returns the empty
  array and \<open>getDriveByUUID\<close> returns \<open>undefined\<close>, but \<open>addDrive\<close>, \<open>updateLastSeen\<close>,
  \<open>updateDriveField\<close> and \<open>removeDrive\<close> parse the file outside any \<open>try\<close> and throw
  the \<open>SyntaxError\<close>.
\<close>

theorem corrupt_store_operations:
  "getAllDrives (DrivesFile Unparseable) = ([], DrivesFile Unparseable) \<and>
   getDriveByUUID u (DrivesFile Unparseable) = (None, DrivesFile Unparseable) \<and>
   addDrive timestamp driveData (DrivesFile Unparseable) = (Inl SyntaxError, DrivesFile Unparseable) \<and>
   updateLastSeen timestamp u (DrivesFile Unparseable) = (Inl SyntaxError, DrivesFile Unparseable) \<and>
   updateDriveField u field v (DrivesFile Unparseable) = (Inl SyntaxError, DrivesFile Unparseable) \<and>
   removeDrive u (DrivesFile Unparseable) = (Inl SyntaxError, DrivesFile Unparseable)"
  by (simp add: getDriveByUUID_def addDrive_def updateLastSeen_def updateDriveField_def removeDrive_def)


lemma sample_uuid [simp]:
  "property sample_record ''uuid'' = Some (JStr ''abc-123'')"
  "property other_record ''uuid'' = Some (JStr ''def-456'')"
  by (simp_all add: sample_record_def other_record_def property_def)

lemma addDrive_duplicate_or_stamp_example:
  "DrivesFile (Registry [stamped (''2025-01-01T00:00:00.000Z'', sample_record)]) \<noteq> DrivesFile Unparseable \<and>
   primitive (property sample_record ''uuid'') \<and> primitive (property other_record ''uuid'') \<and>
   addDrive ''2025-06-01T00:00:00.000Z'' sample_record
       (DrivesFile (Registry [stamped (''2025-01-01T00:00:00.000Z'', sample_record)])) =
     (Inr False, DrivesFile (Registry [stamped (''2025-01-01T00:00:00.000Z'', sample_record)])) \<and>
   addDrive ''2025-06-01T00:00:00.000Z'' other_record
       (DrivesFile (Registry [stamped (''2025-01-01T00:00:00.000Z'', sample_record)])) =
     (Inr True, DrivesFile (Registry [stamped (''2025-01-01T00:00:00.000Z'', sample_record),
        other_record(''first_seen'' \<mapsto> JStr ''2025-06-01T00:00:00.000Z'',
                     ''last_seen'' \<mapsto> JStr ''2025-06-01T00:00:00.000Z'')]))"
  using addDrive_duplicate_or_stamp [of "DrivesFile (Registry [stamped (''2025-01-01T00:00:00.000Z'', sample_record)])"
      sample_record "''2025-06-01T00:00:00.000Z''"]
    addDrive_duplicate_or_stamp [of "DrivesFile (Registry [stamped (''2025-01-01T00:00:00.000Z'', sample_record)])"
      other_record "''2025-06-01T00:00:00.000Z''"]
  by simp

theorem store_uuids_distinct_witness:
  "empty_store NoConfigDir \<and>
   list_all (\<lambda>d. primitive (property d ''uuid'')) (fst (getAllDrives (run_ops
        [Initialize, Add ''t1'' sample_record, Add ''t2'' sample_record, Touch ''t3'' (Some (JStr ''abc-123'')),
         Add ''t4'' other_record, Remove (Some (JStr ''def-456''))] NoConfigDir))) \<and>
   distinct (map (\<lambda>d. property d ''uuid'') (fst (getAllDrives (run_ops
        [Initialize, Add ''t1'' sample_record, Add ''t2'' sample_record, Touch ''t3'' (Some (JStr ''abc-123'')),
         Add ''t4'' other_record, Remove (Some (JStr ''def-456''))] NoConfigDir)))) \<and>
   uuids_distinct (fst (getAllDrives (run_ops
        [Initialize, Add ''t1'' sample_record, Add ''t2'' sample_record, Touch ''t3'' (Some (JStr ''abc-123'')),
         Add ''t4'' other_record, Remove (Some (JStr ''def-456''))] NoConfigDir)))"
proof -
  have e: "empty_store NoConfigDir" by (simp add: empty_store_def)
  have r: "fst (getAllDrives (run_ops
        [Initialize, Add ''t1'' sample_record, Add ''t2'' sample_record, Touch ''t3'' (Some (JStr ''abc-123'')),
         Add ''t4'' other_record, Remove (Some (JStr ''def-456''))] NoConfigDir))
      = [sample_record(''first_seen'' \<mapsto> JStr ''t1'', ''last_seen'' \<mapsto> JStr ''t3'')]"
    by (simp add: run_ops_def addDrive_def updateLastSeen_def removeDrive_def)
  show ?thesis
    using store_uuids_distinct [OF e, of "[Initialize, Add ''t1'' sample_record, Add ''t2'' sample_record,
         Touch ''t3'' (Some (JStr ''abc-123'')), Add ''t4'' other_record, Remove (Some (JStr ''def-456''))]"] e
    unfolding r by simp
qed

theorem add_sequence_round_trip_witness:
  "empty_store NoConfigDir \<and>
   uuids_distinct (map snd [(''t1'', sample_record), (''t2'', other_record)]) \<and>
   primitive (property sample_record ''uuid'') \<and> primitive (property other_record ''uuid'') \<and>
   fst (add_all [(''t1'', sample_record), (''t2'', other_record)] NoConfigDir) = [Inr True, Inr True] \<and>
   fst (getAllDrives (snd (add_all [(''t1'', sample_record), (''t2'', other_record)] NoConfigDir))) =
     [stamped (''t1'', sample_record), stamped (''t2'', other_record)] \<and>
   fst (getDriveByUUID (Some (JStr ''def-456''))
         (snd (add_all [(''t1'', sample_record), (''t2'', other_record)] NoConfigDir))) =
     Some (stamped (''t2'', other_record)) \<and>
   property (stamped (''t1'', sample_record)) ''shelf'' = Some (JStr ''B2'') \<and>
   property (stamped (''t1'', sample_record)) ''first_seen'' = Some (JStr ''t1'')"
proof -
  have e: "empty_store NoConfigDir" by (simp add: empty_store_def)
  have d: "uuids_distinct (map snd [(''t1'', sample_record), (''t2'', other_record)])" by simp
  have s: "property sample_record ''shelf'' = Some (JStr ''B2'')"
    by (simp add: sample_record_def property_def)
  show ?thesis
    using add_sequence_round_trip [OF e d] e d s by simp
qed

section \<open>The auto-labeller\<close>

lemma basename_no_slash: "CHR ''/'' \<notin> set (basename p)"
  by (auto simp: basename_def dest: set_takeWhileD)

lemma basename_not_slash: "basename p \<noteq> ''/''"
  using basename_no_slash [of p] by auto

lemma basename_root: "basename ''/'' = []"
  by (simp add: basename_def)

lemma str_includes_self: "str_includes t t"
  by (cases t) simp_all

text \<open>Each block of \<open>generateSmartLabel\<close> in terms of what it looks at.\<close>

lemma priority1_lxd_eq:
  "priority1_lxd info =
     (if pool_detected info then Some (''LXD-'' @ first_pool_name info)
      else if lxd_detected info then Some ''LXD-Storage'' else None)"
  by (auto simp: priority1_lxd_def pool_detected_def lxd_detected_def first_pool_name_def
      split: option.splits list.splits)

lemma priority2_os_eq:
  "priority2_os info =
     (if os_identified info then Some (take 20 (collapse_space (remove_parens (first_os_type info))))
      else None)"
proof (cases "osInfo info")
  case Nil
  then show ?thesis by (simp add: priority2_os_def os_identified_def)
next
  case (Cons os rest)
  have "osType os = ''Unknown'' \<Longrightarrow> str_includes (osType os) ''Unknown''"
    using str_includes_self [of "''Unknown''"] by simp
  then show ?thesis
    using Cons by (auto simp: priority2_os_def os_identified_def first_os_type_def)
qed

lemma priority3_boot_eq:
  "priority3_boot info = (if boot_flagged info then Some ''Boot-Drive'' else None)"
  by (simp add: priority3_boot_def boot_flagged_def)

lemma priority4_mount_eq:
  "priority4_mount drive =
     (if has_mount_label drive
      then (if basename (mountpoint drive) \<noteq> [] then Some (sanitize_mount_name (basename (mountpoint drive)))
            else Some ''Root-System'')
      else None)"
  using basename_not_slash [of "mountpoint drive"]
  by (auto simp: priority4_mount_def has_mount_label_def Let_def)

lemma priority5_fslabel_eq:
  "priority5_fslabel env drive =
     (if volume_label_of env drive \<noteq> [] then Some (take 20 (collapse_space (volume_label_of env drive)))
      else None)"
  by (auto simp: priority5_fslabel_def volume_label_of_def Let_def split: option.splits)

lemma priority6_model_eq:
  "priority6_model drive =
     (if model_known drive then Some (take 20 (collapse_space (model drive))) else None)"
  by (simp add: priority6_model_def model_known_def)

lemma pool_is_lxd: "pool_detected info \<Longrightarrow> lxd_detected info"
  by (auto simp: pool_detected_def lxd_detected_def split: option.splits)

lemmas priority_eqs =
  priority1_lxd_eq priority2_os_eq priority3_boot_eq priority4_mount_eq priority5_fslabel_eq
  priority6_model_eq

lemma label_rule_pool:
  "pool_detected info \<Longrightarrow> generateSmartLabel env drive info = ''LXD-'' @ first_pool_name info"
  by (simp add: generateSmartLabel_def priority1_lxd_eq)

lemma label_rule_lxd:
  "lxd_detected info \<and> \<not> pool_detected info \<Longrightarrow> generateSmartLabel env drive info = ''LXD-Storage''"
  by (simp add: generateSmartLabel_def priority1_lxd_eq)

lemma label_rule_os:
  "\<not> lxd_detected info \<and> os_identified info \<Longrightarrow>
   generateSmartLabel env drive info = take 20 (collapse_space (remove_parens (first_os_type info)))"
  using pool_is_lxd [of info] by (auto simp: generateSmartLabel_def priority_eqs)

lemma label_rule_boot:
  "\<not> lxd_detected info \<and> \<not> os_identified info \<and> boot_flagged info \<Longrightarrow>
   generateSmartLabel env drive info = ''Boot-Drive''"
  using pool_is_lxd [of info] by (auto simp: generateSmartLabel_def priority_eqs)

lemma label_rule_mount:
  "\<not> lxd_detected info \<and> \<not> os_identified info \<and> \<not> boot_flagged info \<and>
   has_mount_label drive \<and> basename (mountpoint drive) \<noteq> [] \<Longrightarrow>
   generateSmartLabel env drive info = sanitize_mount_name (basename (mountpoint drive))"
  using pool_is_lxd [of info] by (auto simp: generateSmartLabel_def priority_eqs)

lemma label_rule_root:
  "\<not> lxd_detected info \<and> \<not> os_identified info \<and> \<not> boot_flagged info \<and> mountpoint drive = ''/'' \<Longrightarrow>
   generateSmartLabel env drive info = ''Root-System''"
  using pool_is_lxd [of info]
  by (auto simp: generateSmartLabel_def priority_eqs has_mount_label_def basename_root)

lemma label_rule_volume:
  "\<not> lxd_detected info \<and> \<not> os_identified info \<and> \<not> boot_flagged info \<and>
   \<not> has_mount_label drive \<and> volume_label_of env drive \<noteq> [] \<Longrightarrow>
   generateSmartLabel env drive info = take 20 (collapse_space (volume_label_of env drive))"
  using pool_is_lxd [of info] by (auto simp: generateSmartLabel_def priority_eqs)

lemma label_rule_model:
  "\<not> lxd_detected info \<and> \<not> os_identified info \<and> \<not> boot_flagged info \<and>
   \<not> has_mount_label drive \<and> volume_label_of env drive = [] \<and> model_known drive \<Longrightarrow>
   generateSmartLabel env drive info = take 20 (collapse_space (model drive))"
  using pool_is_lxd [of info] by (auto simp: generateSmartLabel_def priority_eqs)

lemma label_rule_fallback:
  "\<not> lxd_detected info \<and> \<not> os_identified info \<and> \<not> boot_flagged info \<and>
   \<not> has_mount_label drive \<and> volume_label_of env drive = [] \<and> \<not> model_known drive \<Longrightarrow>
   generateSmartLabel env drive info = name drive @ ''-'' @ filter (\<lambda>c. c \<noteq> CHR ''.'') (dsize drive)"
  using pool_is_lxd [of info] by (auto simp: generateSmartLabel_def priority_eqs fallback_label_def)

text \<open>
  C2.  The label follows the order of section 4.4 for every node, probe and environment.
  A detected pool gives \<open>LXD-\<close> and the name of the first pool, whatever the mount path
  and everything else is (a container store without pool gives \<open>LXD-Storage\<close>).
  Without container store, an identified operating system gives its type without
  parenthesised text, white space as dashes, cut at 20 characters.  Without either, a boot
  flag gives \<open>Boot-Drive\<close>.  Without any of these, a mounted node gives the sanitised
  final segment of its mount path, and \<open>Root-System\<close> at the root.  Only then a volume
  label counts, then a known model, both with white space as dashes and cut at 20
  characters; the fallback is the device name, a dash and the size without dots.
\<close>

theorem label_priority:
  "(pool_detected info \<longrightarrow>
      generateSmartLabel env drive info = ''LXD-'' @ first_pool_name info) \<and>
   (lxd_detected info \<and> \<not> pool_detected info \<longrightarrow>
      generateSmartLabel env drive info = ''LXD-Storage'') \<and>
   (\<not> lxd_detected info \<and> os_identified info \<longrightarrow>
      generateSmartLabel env drive info = take 20 (collapse_space (remove_parens (first_os_type info)))) \<and>
   (\<not> lxd_detected info \<and> \<not> os_identified info \<and> boot_flagged info \<longrightarrow>
      generateSmartLabel env drive info = ''Boot-Drive'') \<and>
   (\<not> lxd_detected info \<and> \<not> os_identified info \<and> \<not> boot_flagged info \<and>
    has_mount_label drive \<and> basename (mountpoint drive) \<noteq> [] \<longrightarrow>
      generateSmartLabel env drive info = sanitize_mount_name (basename (mountpoint drive))) \<and>
   (\<not> lxd_detected info \<and> \<not> os_identified info \<and> \<not> boot_flagged info \<and> mountpoint drive = ''/'' \<longrightarrow>
      generateSmartLabel env drive info = ''Root-System'') \<and>
   (\<not> lxd_detected info \<and> \<not> os_identified info \<and> \<not> boot_flagged info \<and>
    \<not> has_mount_label drive \<and> volume_label_of env drive \<noteq> [] \<longrightarrow>
      generateSmartLabel env drive info = take 20 (collapse_space (volume_label_of env drive))) \<and>
   (\<not> lxd_detected info \<and> \<not> os_identified info \<and> \<not> boot_flagged info \<and>
    \<not> has_mount_label drive \<and> volume_label_of env drive = [] \<and> model_known drive \<longrightarrow>
      generateSmartLabel env drive info = take 20 (collapse_space (model drive))) \<and>
   (\<not> lxd_detected info \<and> \<not> os_identified info \<and> \<not> boot_flagged info \<and>
    \<not> has_mount_label drive \<and> volume_label_of env drive = [] \<and> \<not> model_known drive \<longrightarrow>
      generateSmartLabel env drive info =
        name drive @ ''-'' @ filter (\<lambda>c. c \<noteq> CHR ''.'') (dsize drive))"
  by (intro conjI impI)
    (erule label_rule_pool label_rule_lxd label_rule_os label_rule_boot label_rule_mount
       label_rule_root label_rule_volume label_rule_model label_rule_fallback)+

lemmas sample_probe_defs =
  nothing_detected_def pool_info_def lxd_without_pool_def boot_info_def os_boot_info_def
  lxd_detected_def pool_detected_def first_pool_name_def first_os_type_def os_identified_def
  boot_flagged_def

lemmas sample_node_defs =
  mounted_node_def mounted_fat_node_def root_node_def unmounted_fat_node_def fat_node_def
  has_mount_label_def volume_label_of_def model_known_def sample_env_def

theorem label_priority_witness:
  "pool_detected pool_info \<and> has_mount_label mounted_node \<and>
   generateSmartLabel (sample_env ''KINGSTON 32 '' '''') mounted_node pool_info = ''LXD-default'' \<and>
   lxd_detected lxd_without_pool \<and> \<not> pool_detected lxd_without_pool \<and>
   generateSmartLabel (sample_env ''KINGSTON 32 '' '''') mounted_node lxd_without_pool = ''LXD-Storage'' \<and>
   \<not> lxd_detected os_boot_info \<and> os_identified os_boot_info \<and> boot_flagged os_boot_info \<and>
   generateSmartLabel (sample_env ''KINGSTON 32 '' '''') mounted_node os_boot_info = ''Raspberry-Pi-OS-Book'' \<and>
   \<not> lxd_detected boot_info \<and> \<not> os_identified boot_info \<and> boot_flagged boot_info \<and>
   generateSmartLabel (sample_env ''KINGSTON 32 '' '''') mounted_node boot_info = ''Boot-Drive'' \<and>
   \<not> lxd_detected nothing_detected \<and> \<not> os_identified nothing_detected \<and>
   \<not> boot_flagged nothing_detected \<and>
   has_mount_label mounted_fat_node \<and> basename (mountpoint mounted_fat_node) \<noteq> [] \<and>
   volume_label_of (sample_env ''KINGSTON 32 '' '''') mounted_fat_node \<noteq> [] \<and>
   generateSmartLabel (sample_env ''KINGSTON 32 '' '''') mounted_fat_node nothing_detected = ''My-Disk'' \<and>
   mountpoint root_node = ''/'' \<and>
   generateSmartLabel (sample_env ''KINGSTON 32 '' '''') root_node nothing_detected = ''Root-System'' \<and>
   \<not> has_mount_label unmounted_fat_node \<and>
   volume_label_of (sample_env ''KINGSTON 32 '' '''') unmounted_fat_node \<noteq> [] \<and>
   model_known unmounted_fat_node \<and>
   generateSmartLabel (sample_env ''KINGSTON 32 '' '''') unmounted_fat_node nothing_detected = ''KINGSTON-32'' \<and>
   volume_label_of (sample_env '''' '''') unmounted_fat_node = [] \<and>
   generateSmartLabel (sample_env '''' '''') unmounted_fat_node nothing_detected = ''SanDisk-Ultra'' \<and>
   \<not> has_mount_label fat_node \<and> volume_label_of (sample_env '''' '''') fat_node = [] \<and>
   \<not> model_known fat_node \<and>
   generateSmartLabel (sample_env '''' '''') fat_node nothing_detected = ''sdc1-37GB''"
proof -
  let ?E = "sample_env ''KINGSTON 32 '' ''''"
  let ?N = "sample_env '''' ''''"
  have p1: "pool_detected pool_info" by (simp add: sample_probe_defs)
  have p2: "lxd_detected lxd_without_pool \<and> \<not> pool_detected lxd_without_pool"
    by (simp add: sample_probe_defs)
  have p3: "\<not> lxd_detected os_boot_info \<and> os_identified os_boot_info"
    by (simp add: sample_probe_defs)
  have p3': "boot_flagged os_boot_info" by (simp add: sample_probe_defs)
  have p4: "\<not> lxd_detected boot_info \<and> \<not> os_identified boot_info \<and> boot_flagged boot_info"
    by (simp add: sample_probe_defs)
  have p0: "\<not> lxd_detected nothing_detected \<and> \<not> os_identified nothing_detected \<and>
      \<not> boot_flagged nothing_detected"
    by (simp add: sample_probe_defs)
  have m0: "has_mount_label mounted_node" by code_simp
  have m5: "has_mount_label mounted_fat_node \<and> basename (mountpoint mounted_fat_node) \<noteq> []"
    by code_simp
  have v5: "volume_label_of ?E mounted_fat_node \<noteq> []" by code_simp
  have m6: "mountpoint root_node = ''/''" by (simp add: root_node_def)
  have m7: "\<not> has_mount_label unmounted_fat_node" by code_simp
  have v7: "volume_label_of ?E unmounted_fat_node \<noteq> []" by code_simp
  have k7: "model_known unmounted_fat_node" by code_simp
  have v8: "volume_label_of ?N unmounted_fat_node = []" by code_simp
  have m9: "\<not> has_mount_label fat_node" by code_simp
  have v9: "volume_label_of ?N fat_node = []" by code_simp
  have k9: "\<not> model_known fat_node" by code_simp
  have e1: "''LXD-'' @ first_pool_name pool_info = ''LXD-default''" by (simp add: sample_probe_defs)
  have e3: "take 20 (collapse_space (remove_parens (first_os_type os_boot_info))) = ''Raspberry-Pi-OS-Book''"
    by code_simp
  have e5: "sanitize_mount_name (basename (mountpoint mounted_fat_node)) = ''My-Disk''" by code_simp
  have e7: "take 20 (collapse_space (volume_label_of ?E unmounted_fat_node)) = ''KINGSTON-32''"
    by code_simp
  have e8: "take 20 (collapse_space (model unmounted_fat_node)) = ''SanDisk-Ultra''" by code_simp
  have e9: "name fat_node @ ''-'' @ filter (\<lambda>c. c \<noteq> CHR ''.'') (dsize fat_node) = ''sdc1-37GB''"
    by code_simp
  have l1: "generateSmartLabel ?E mounted_node pool_info = ''LXD-default''"
    using label_priority [where env = ?E and drive = mounted_node and info = pool_info] p1 e1 by simp
  have l2: "generateSmartLabel ?E mounted_node lxd_without_pool = ''LXD-Storage''"
    using label_priority [where env = ?E and drive = mounted_node and info = lxd_without_pool] p2 by simp
  have l3: "generateSmartLabel ?E mounted_node os_boot_info = ''Raspberry-Pi-OS-Book''"
    using label_priority [where env = ?E and drive = mounted_node and info = os_boot_info] p3 e3 by simp
  have l4: "generateSmartLabel ?E mounted_node boot_info = ''Boot-Drive''"
    using label_priority [where env = ?E and drive = mounted_node and info = boot_info] p4 by simp
  have l5: "generateSmartLabel ?E mounted_fat_node nothing_detected = ''My-Disk''"
    using label_priority [where env = ?E and drive = mounted_fat_node and info = nothing_detected]
      p0 m5 e5 by simp
  have l6: "generateSmartLabel ?E root_node nothing_detected = ''Root-System''"
    using label_priority [where env = ?E and drive = root_node and info = nothing_detected] p0 m6 by simp
  have l7: "generateSmartLabel ?E unmounted_fat_node nothing_detected = ''KINGSTON-32''"
    using label_priority [where env = ?E and drive = unmounted_fat_node and info = nothing_detected]
      p0 m7 v7 e7 by simp
  have l8: "generateSmartLabel ?N unmounted_fat_node nothing_detected = ''SanDisk-Ultra''"
    using label_priority [where env = ?N and drive = unmounted_fat_node and info = nothing_detected]
      p0 m7 v8 k7 e8 by simp
  have l9: "generateSmartLabel ?N fat_node nothing_detected = ''sdc1-37GB''"
    using label_priority [where env = ?N and drive = fat_node and info = nothing_detected]
      p0 m9 v9 k9 e9 by simp
  show ?thesis
    by (intro conjI p1 m0 l1 p2 [THEN conjunct1] p2 [THEN conjunct2] l2
        p3 [THEN conjunct1] p3 [THEN conjunct2] p3' l3
        p4 [THEN conjunct1] p4 [THEN conjunct2, THEN conjunct1] p4 [THEN conjunct2, THEN conjunct2] l4
        p0 [THEN conjunct1] p0 [THEN conjunct2, THEN conjunct1] p0 [THEN conjunct2, THEN conjunct2]
        m5 [THEN conjunct1] m5 [THEN conjunct2] v5 l5 m6 l6 m7 v7 k7 l7 v8 l8 m9 v9 k9 l9)
qed

text \<open>
  C6, as stated, fails: with the same node and the same probe, the label follows the answer
  of \<open>blkid\<close> and the purpose follows the listing of the mount path, both obtained by
  the functions themselves through \<open>execSync\<close>.
\<close>

theorem label_depends_on_environment:
  "generateSmartLabel (sample_env ''KINGSTON'' '''') fat_node nothing_detected \<noteq>
     generateSmartLabel (sample_env ''BACKUP'' '''') fat_node nothing_detected \<and>
   detectPurpose (sample_env ''KINGSTON'' ''Documents'') mounted_node nothing_detected \<noteq>
     detectPurpose (sample_env ''KINGSTON'' '''') mounted_node nothing_detected"
  by code_simp

text \<open>
  C6, amended.  The label and the purpose are determined by the node, the probe and the
  answer to the one command each function runs: two invocations agree when \<open>blkid\<close>
  answers the same for the node's device, respectively when \<open>ls\<close> answers the same for
  its mount path.  The label does not depend on the environment at all when the file
  system is neither vfat nor ntfs, nor the purpose when the node is not mounted.
\<close>

theorem label_environment_dependence:
  "(blkid_label env1 (device drive) = blkid_label env2 (device drive) \<longrightarrow>
      generateSmartLabel env1 drive info = generateSmartLabel env2 drive info) \<and>
   (fstype drive \<noteq> ''vfat'' \<and> fstype drive \<noteq> ''ntfs'' \<longrightarrow>
      generateSmartLabel env1 drive info = generateSmartLabel env2 drive info) \<and>
   (ls_mountpoint env1 (mountpoint drive) = ls_mountpoint env2 (mountpoint drive) \<longrightarrow>
      detectPurpose env1 drive info = detectPurpose env2 drive info) \<and>
   (mountpoint drive = ''not mounted'' \<longrightarrow>
      detectPurpose env1 drive info = detectPurpose env2 drive info)"
proof -
  have 1: "priority5_fslabel env1 drive = priority5_fslabel env2 drive"
    if "blkid_label env1 (device drive) = blkid_label env2 (device drive)"
    using that by (simp add: priority5_fslabel_def)
  have 2: "priority5_fslabel env1 drive = priority5_fslabel env2 drive"
    if "fstype drive \<noteq> ''vfat'' \<and> fstype drive \<noteq> ''ntfs''"
    using that by (simp add: priority5_fslabel_def)
  have 3: "purpose_dirs env1 drive = purpose_dirs env2 drive"
    if "ls_mountpoint env1 (mountpoint drive) = ls_mountpoint env2 (mountpoint drive)"
    using that by (simp add: purpose_dirs_def)
  have 4: "purpose_dirs env1 drive = purpose_dirs env2 drive"
    if "mountpoint drive = ''not mounted''"
    using that by (simp add: purpose_dirs_def)
  have l: "generateSmartLabel env1 drive info = generateSmartLabel env2 drive info"
    if "priority5_fslabel env1 drive = priority5_fslabel env2 drive"
    unfolding generateSmartLabel_def that by (rule refl)
  have p: "detectPurpose env1 drive info = detectPurpose env2 drive info"
    if "purpose_dirs env1 drive = purpose_dirs env2 drive"
    unfolding detectPurpose_def that by (rule refl)
  show ?thesis using 1 2 3 4 l p by blast
qed

theorem label_environment_dependence_witness:
  "blkid_label (sample_env ''KINGSTON'' ''Documents'') (device fat_node) =
     blkid_label (sample_env ''KINGSTON'' '''') (device fat_node) \<and>
   mountpoint fat_node = ''not mounted'' \<and>
   generateSmartLabel (sample_env ''KINGSTON'' ''Documents'') fat_node nothing_detected =
     generateSmartLabel (sample_env ''KINGSTON'' '''') fat_node nothing_detected \<and>
   detectPurpose (sample_env ''KINGSTON'' ''Documents'') fat_node nothing_detected =
     detectPurpose (sample_env ''KINGSTON'' '''') fat_node nothing_detected \<and>
   fstype mounted_node \<noteq> ''vfat'' \<and> fstype mounted_node \<noteq> ''ntfs'' \<and>
   ls_mountpoint (sample_env ''KINGSTON'' ''Documents'') (mountpoint mounted_node) =
     ls_mountpoint (sample_env ''BACKUP'' ''Documents'') (mountpoint mounted_node) \<and>
   generateSmartLabel (sample_env ''KINGSTON'' ''Documents'') mounted_node nothing_detected =
     generateSmartLabel (sample_env ''BACKUP'' ''Documents'') mounted_node nothing_detected \<and>
   detectPurpose (sample_env ''KINGSTON'' ''Documents'') mounted_node nothing_detected =
     detectPurpose (sample_env ''BACKUP'' ''Documents'') mounted_node nothing_detected"
proof -
  have a: "blkid_label (sample_env ''KINGSTON'' ''Documents'') (device fat_node) =
     blkid_label (sample_env ''KINGSTON'' '''') (device fat_node)"
    by (simp add: sample_env_def)
  have b: "mountpoint fat_node = ''not mounted''" by (simp add: fat_node_def)
  have c: "fstype mounted_node \<noteq> ''vfat'' \<and> fstype mounted_node \<noteq> ''ntfs''"
    by (simp add: mounted_node_def)
  have d: "ls_mountpoint (sample_env ''KINGSTON'' ''Documents'') (mountpoint mounted_node) =
     ls_mountpoint (sample_env ''BACKUP'' ''Documents'') (mountpoint mounted_node)"
    by (simp add: sample_env_def)
  show ?thesis
    using label_environment_dependence [of "sample_env ''KINGSTON'' ''Documents''" fat_node
        "sample_env ''KINGSTON'' ''''" nothing_detected]
      label_environment_dependence [of "sample_env ''KINGSTON'' ''Documents''" mounted_node
        "sample_env ''BACKUP'' ''Documents''" nothing_detected]
      a b c d
    by blast
qed

section \<open>Registration of scanned partitions\<close>

lemma make_node_placeholder:
  "bd_uuid d = None \<or> bd_uuid d = Some [] \<Longrightarrow> uuid (make_node d) = ''NO-UUID-'' @ bd_name d"
  by (auto simp: make_node_def or_default_def)

lemma autoRegisterDrive_uuid [simp]:
  "property (autoRegisterDrive env d) ''uuid'' = Some (JStr (uuid d))"
  by (simp add: autoRegisterDrive_def Let_def property_def)

lemma autoRegisterAll_uuids:
  "map (\<lambda>r. property r ''uuid'') (autoRegisterAll env detected known) =
   map (\<lambda>d. Some (JStr (uuid d)))
     (filter (\<lambda>d. dtype d = ''part'' \<and> Some (JStr (uuid d)) \<notin> set (map (\<lambda>k. property k ''uuid'') known)) detected)"
  by (simp add: autoRegisterAll_def Let_def comp_def)

lemma register_all_registry:
  "\<forall>r\<in>set rs. primitive (property r ''uuid'') \<Longrightarrow>
   \<exists>n ds'. register_all clock i rs (DrivesFile (Registry ds)) = (Inr n, DrivesFile (Registry ds')) \<and>
     set (map (\<lambda>d. property d ''uuid'') ds') =
       set (map (\<lambda>d. property d ''uuid'') ds) \<union> set (map (\<lambda>d. property d ''uuid'') rs)"
proof (induction rs arbitrary: ds i)
  case Nil
  show ?case by simp
next
  case (Cons r rs)
  have prim: "primitive (property r ''uuid'')" using Cons.prems by simp
  have ex: "list_ex (\<lambda>d. strict_eq (property d ''uuid'') (property r ''uuid'')) ds
      = (property r ''uuid'' \<in> (\<lambda>d. property d ''uuid'') ` set ds)"
    by (simp add: list_ex_iff strict_eq_primitive [OF prim] ex_image_eq)
  show ?case
  proof (cases "property r ''uuid'' \<in> (\<lambda>d. property d ''uuid'') ` set ds")
    case True
    then have a: "addDrive (clock i) r (DrivesFile (Registry ds)) = (Inr False, DrivesFile (Registry ds))"
      by (simp add: addDrive_def ex)
    obtain n ds' where
      r: "register_all clock (Suc i) rs (DrivesFile (Registry ds)) = (Inr n, DrivesFile (Registry ds'))"
      and u: "set (map (\<lambda>d. property d ''uuid'') ds') =
         set (map (\<lambda>d. property d ''uuid'') ds) \<union> set (map (\<lambda>d. property d ''uuid'') rs)"
      using Cons.IH [where ds = ds and i = "Suc i"] Cons.prems by auto
    have "register_all clock i (r # rs) (DrivesFile (Registry ds)) = (Inr n, DrivesFile (Registry ds'))"
      by (simp add: a r)
    moreover have "set (map (\<lambda>d. property d ''uuid'') ds') =
         set (map (\<lambda>d. property d ''uuid'') ds) \<union> set (map (\<lambda>d. property d ''uuid'') (r # rs))"
      using u True by auto
    ultimately show ?thesis by blast
  next
    case False
    define r' where "r' = r(''first_seen'' \<mapsto> JStr (clock i), ''last_seen'' \<mapsto> JStr (clock i))"
    have ru: "property r' ''uuid'' = property r ''uuid''" by (simp add: r'_def)
    from False have a: "addDrive (clock i) r (DrivesFile (Registry ds)) = (Inr True, DrivesFile (Registry (ds @ [r'])))"
      by (simp add: addDrive_def ex r'_def)
    obtain n ds' where
      r: "register_all clock (Suc i) rs (DrivesFile (Registry (ds @ [r']))) = (Inr n, DrivesFile (Registry ds'))"
      and u: "set (map (\<lambda>d. property d ''uuid'') ds') =
         set (map (\<lambda>d. property d ''uuid'') (ds @ [r'])) \<union> set (map (\<lambda>d. property d ''uuid'') rs)"
      using Cons.IH [where ds = "ds @ [r']" and i = "Suc i"] Cons.prems by auto
    have "register_all clock i (r # rs) (DrivesFile (Registry ds)) = (Inr (n + 1), DrivesFile (Registry ds'))"
      by (simp add: a r)
    moreover have "set (map (\<lambda>d. property d ''uuid'') ds') =
         set (map (\<lambda>d. property d ''uuid'') ds) \<union> set (map (\<lambda>d. property d ''uuid'') (r # rs))"
      using u ru by auto
    ultimately show ?thesis by blast
  qed
qed

lemma auto_register_persists:
  assumes "s \<noteq> DrivesFile Unparseable" and "d \<in> set (detectDrives lsblk)" and "dtype d = ''part''"
  shows "Some (JStr (uuid d)) \<in> registered_uuids (snd (menu_auto_register_all env clock lsblk s))"
proof -
  obtain known where g: "getAllDrives s = (known, DrivesFile (Registry known))"
    using assms(1) by (cases s rule: store_cases) auto
  define K where "K = set (map (\<lambda>k. property k ''uuid'') known)"
  define unregistered where
    "unregistered = filter (\<lambda>d. Some (JStr (uuid d)) \<notin> K) (filter (\<lambda>d. dtype d = ''part'') (detectDrives lsblk))"
  define proposed where "proposed = autoRegisterAll env unregistered known"
  have menu: "menu_auto_register_all env clock lsblk s =
      (if length unregistered = 0 then (Inr 0, DrivesFile (Registry known))
       else if length proposed = 0 then (Inr 0, DrivesFile (Registry known))
       else register_all clock 0 proposed (DrivesFile (Registry known)))"
    by (simp add: menu_auto_register_all_def g Let_def unregistered_def proposed_def K_def)
  have pu: "map (\<lambda>r. property r ''uuid'') proposed = map (\<lambda>d. Some (JStr (uuid d))) unregistered"
    unfolding proposed_def autoRegisterAll_uuids unregistered_def K_def
    by (rule arg_cong [where f = "map _"]) (auto intro: filter_cong)
  have prim: "\<forall>r\<in>set proposed. primitive (property r ''uuid'')"
    by (auto simp: proposed_def autoRegisterAll_def Let_def)
  obtain n ds' where
    r: "register_all clock 0 proposed (DrivesFile (Registry known)) = (Inr n, DrivesFile (Registry ds'))"
    and u: "set (map (\<lambda>d. property d ''uuid'') ds') = K \<union> set (map (\<lambda>d. property d ''uuid'') proposed)"
    using register_all_registry [OF prim, where clock = clock and i = 0 and ds = known] unfolding K_def by blast
  show ?thesis
  proof (cases "Some (JStr (uuid d)) \<in> K")
    case True
    then show ?thesis
      unfolding menu registered_uuids_def using u r by (auto simp: K_def)
  next
    case False
    then have mem: "d \<in> set unregistered" using assms(2,3) by (simp add: unregistered_def)
    then have "Some (JStr (uuid d)) \<in> set (map (\<lambda>r. property r ''uuid'') proposed)"
      unfolding pu by simp
    moreover have "unregistered \<noteq> []" "proposed \<noteq> []"
      using mem pu by auto
    ultimately show ?thesis
      unfolding menu registered_uuids_def using u r by auto
  qed
qed

text \<open>
  C7, amended.  A device for which lsblk reports no UUID gets the key \<open>NO-UUID-\<close>
  followed by its name.  Registration does not tell such a key from a real UUID: after
  "Auto-register all drives" on a store whose file parses, the uuid of every detected
  partition, placeholder or not, is a key of the registry.
\<close>

theorem placeholder_registration:
  "(bd_uuid dev = None \<or> bd_uuid dev = Some [] \<longrightarrow> uuid (make_node dev) = ''NO-UUID-'' @ bd_name dev) \<and>
   (s \<noteq> DrivesFile Unparseable \<and> d \<in> set (detectDrives lsblk) \<and> dtype d = ''part'' \<longrightarrow>
      Some (JStr (uuid d)) \<in> registered_uuids (snd (menu_auto_register_all env clock lsblk s)))"
  using make_node_placeholder auto_register_persists by blast

lemma sample_scan:
  "detectDrives (Some [sample_disk]) = [make_node sample_disk, make_node sample_partition]"
  by (simp add: detectDrives_def sample_disk_def sample_partition_def)

lemma sample_partition_node:
  "uuid (make_node sample_partition) = ''NO-UUID-sdb1''" "dtype (make_node sample_partition) = ''part''"
  by (simp_all add: make_node_def or_default_def sample_partition_def)

theorem placeholder_registration_witness:
  "bd_uuid sample_partition = None \<and> NoConfigDir \<noteq> DrivesFile Unparseable \<and>
   make_node sample_partition \<in> set (detectDrives (Some [sample_disk])) \<and>
   dtype (make_node sample_partition) = ''part'' \<and>
   uuid (make_node sample_partition) = ''NO-UUID-'' @ bd_name sample_partition \<and>
   Some (JStr (uuid (make_node sample_partition))) \<in>
     registered_uuids (snd (menu_auto_register_all (sample_env '''' '''') sample_clock (Some [sample_disk]) NoConfigDir))"
proof -
  have a: "bd_uuid sample_partition = None" by (simp add: sample_partition_def)
  have b: "NoConfigDir \<noteq> DrivesFile Unparseable" by simp
  have c: "make_node sample_partition \<in> set (detectDrives (Some [sample_disk]))" by (simp add: sample_scan)
  note d = sample_partition_node(2)
  show ?thesis
    using placeholder_registration [of sample_partition NoConfigDir "make_node sample_partition"
        "Some [sample_disk]" "sample_env '''' ''''" sample_clock] a b c d
    by blast
qed

text \<open>
  C7, as stated, fails: auto-registration of a partition without UUID persists a record
  under the placeholder.
\<close>

theorem placeholder_persisted:
  "uuid (make_node sample_partition) = ''NO-UUID-sdb1'' \<and>
   Some (JStr ''NO-UUID-sdb1'') \<in>
     registered_uuids (snd (menu_auto_register_all (sample_env '''' '''') sample_clock (Some [sample_disk]) NoConfigDir))"
proof -
  have "make_node sample_partition \<in> set (detectDrives (Some [sample_disk]))" by (simp add: sample_scan)
  then have "Some (JStr (uuid (make_node sample_partition))) \<in>
     registered_uuids (snd (menu_auto_register_all (sample_env '''' '''') sample_clock (Some [sample_disk]) NoConfigDir))"
    using auto_register_persists [of NoConfigDir] sample_partition_node(2) by blast
  then show ?thesis by (simp add: sample_partition_node(1))
qed


section \<open>Reconciliation\<close>

lemma length_update_first [simp]: "length (update_first P f ds) = length ds"
  by (induction ds) auto

lemma update_first_nth:
  "uuids_distinct ds \<Longrightarrow> primitive u \<Longrightarrow> k < length ds \<Longrightarrow>
   update_first (\<lambda>d. strict_eq (property d ''uuid'') u) f ds ! k =
     (if property (ds ! k) ''uuid'' = u then f (ds ! k) else ds ! k)"
proof (induction ds arbitrary: k)
  case Nil
  then show ?case by simp
next
  case (Cons a ds)
  show ?case
  proof (cases "property a ''uuid'' = u")
    case True
    have "property e ''uuid'' \<noteq> u" if "e \<in> set ds" for e
      using Cons.prems(1,2) that True by (auto simp: list_ex_iff strict_eq_primitive)
    then have "property (ds ! k') ''uuid'' \<noteq> u" if "k' < length ds" for k'
      using that by simp
    then show ?thesis using True Cons.prems(2,3) by (cases k) (simp_all add: strict_eq_primitive)
  next
    case False
    then show ?thesis using Cons by (cases k) (simp_all add: strict_eq_primitive)
  qed
qed

lemma getDriveByUUID_registry [simp]:
  "getDriveByUUID u (DrivesFile (Registry ds)) =
     (find (\<lambda>d. strict_eq (property d ''uuid'') u) ds, DrivesFile (Registry ds))"
  by (simp add: getDriveByUUID_def)

lemma detectedUUIDs_iff:
  "(v \<in> detectedUUIDs detected) = (\<exists>n\<in>set detected. v = Some (JStr (uuid n)))"
  by (simp add: detectedUUIDs_def image_iff)

lemma detectedUUIDs_Cons:
  "(v \<in> detectedUUIDs (n # rest)) = (v = Some (JStr (uuid n)) \<or> v \<in> detectedUUIDs rest)"
  by (simp add: detectedUUIDs_def)

lemma touch_detected_registry:
  "uuids_distinct ds \<Longrightarrow>
   \<exists>ds'. touch_detected clock i nodes (DrivesFile (Registry ds)) = (Inr (), DrivesFile (Registry ds')) \<and>
     length ds' = length ds \<and>
     (\<forall>k<length ds.
        (property (ds ! k) ''uuid'' \<in> detectedUUIDs nodes \<longrightarrow>
           (\<exists>j<length nodes. ds' ! k = (ds ! k)(''last_seen'' \<mapsto> JStr (clock (i + j))))) \<and>
        (property (ds ! k) ''uuid'' \<notin> detectedUUIDs nodes \<longrightarrow> ds' ! k = ds ! k))"
proof (induction nodes arbitrary: ds i)
  case Nil
  show ?case by (simp add: detectedUUIDs_def)
next
  case (Cons n rest)
  define u where "u = Some (JStr (uuid n))"
  have prim: "primitive u" by (simp add: u_def)
  define f where "f = (\<lambda>d::jsobject. d(''last_seen'' \<mapsto> JStr (clock i)))"
  define ds1 where "ds1 = (if find (\<lambda>d. strict_eq (property d ''uuid'') u) ds = None then ds
      else update_first (\<lambda>d. strict_eq (property d ''uuid'') u) f ds)"
  have step: "touch_detected clock i (n # rest) (DrivesFile (Registry ds)) =
      touch_detected clock (Suc i) rest (DrivesFile (Registry ds1))"
    by (cases "find (\<lambda>d. strict_eq (property d ''uuid'') u) ds")
      (simp_all add: ds1_def u_def [symmetric] updateLastSeen_def f_def)
  have len1: "length ds1 = length ds" by (simp add: ds1_def)
  have fu: "property (f d) ''uuid'' = property d ''uuid''" for d by (simp add: f_def)
  have "map (\<lambda>d. property d ''uuid'') ds1 = map (\<lambda>d. property d ''uuid'') ds"
    unfolding ds1_def using map_uuid_update_first [of f _ ds] fu by simp
  then have dist1: "uuids_distinct ds1" using Cons.prems uuids_distinct_cong by blast
  have nth1: "ds1 ! k = (if property (ds ! k) ''uuid'' = u then f (ds ! k) else ds ! k)"
    if "k < length ds" for k
  proof (cases "find (\<lambda>d. strict_eq (property d ''uuid'') u) ds")
    case None
    then have "\<not> strict_eq (property (ds ! k) ''uuid'') u"
      using that by (simp add: find_None_iff)
    then show ?thesis using None by (simp add: ds1_def strict_eq_primitive [OF prim])
  next
    case (Some d0)
    then show ?thesis using update_first_nth [OF Cons.prems prim that] by (simp add: ds1_def)
  qed
  obtain ds' where
    run: "touch_detected clock (Suc i) rest (DrivesFile (Registry ds1)) = (Inr (), DrivesFile (Registry ds'))"
    and len: "length ds' = length ds1"
    and eff: "\<And>k. k < length ds1 \<Longrightarrow>
        (property (ds1 ! k) ''uuid'' \<in> detectedUUIDs rest \<longrightarrow>
           (\<exists>j<length rest. ds' ! k = (ds1 ! k)(''last_seen'' \<mapsto> JStr (clock (Suc i + j))))) \<and>
        (property (ds1 ! k) ''uuid'' \<notin> detectedUUIDs rest \<longrightarrow> ds' ! k = ds1 ! k)"
    using Cons.IH [OF dist1, where i = "Suc i"] by blast
  have final: "(property (ds ! k) ''uuid'' \<in> detectedUUIDs (n # rest) \<longrightarrow>
           (\<exists>j<length (n # rest). ds' ! k = (ds ! k)(''last_seen'' \<mapsto> JStr (clock (i + j))))) \<and>
        (property (ds ! k) ''uuid'' \<notin> detectedUUIDs (n # rest) \<longrightarrow> ds' ! k = ds ! k)"
    if k: "k < length ds" for k
  proof -
    have k1: "k < length ds1" using k len1 by simp
    have pu: "property (ds1 ! k) ''uuid'' = property (ds ! k) ''uuid''"
      using nth1 [OF k] fu by simp
    have over: "(ds1 ! k)(''last_seen'' \<mapsto> v) = (ds ! k)(''last_seen'' \<mapsto> v)" for v
      using nth1 [OF k] by (simp add: f_def)
    show ?thesis
    proof (cases "property (ds ! k) ''uuid'' \<in> detectedUUIDs rest")
      case True
      then obtain j where "j < length rest"
        and "ds' ! k = (ds ! k)(''last_seen'' \<mapsto> JStr (clock (Suc i + j)))"
        using eff [OF k1] pu over by auto
      then have "Suc j < length (n # rest) \<and> ds' ! k = (ds ! k)(''last_seen'' \<mapsto> JStr (clock (i + Suc j)))"
        by simp
      then show ?thesis using True detectedUUIDs_Cons by blast
    next
      case False
      then have same: "ds' ! k = ds1 ! k" using eff [OF k1] pu by simp
      show ?thesis
      proof (cases "property (ds ! k) ''uuid'' = u")
        case True
        then have "ds' ! k = (ds ! k)(''last_seen'' \<mapsto> JStr (clock (i + 0)))"
          using same nth1 [OF k] by (simp add: f_def)
        moreover have "0 < length (n # rest)" by simp
        ultimately have "\<exists>j<length (n # rest). ds' ! k = (ds ! k)(''last_seen'' \<mapsto> JStr (clock (i + j)))"
          by blast
        then show ?thesis using True by (simp add: detectedUUIDs_Cons u_def)
      next
        case neq: False
        then have "ds' ! k = ds ! k" using same nth1 [OF k] by simp
        then show ?thesis using neq False by (simp add: detectedUUIDs_Cons u_def)
      qed
    qed
  qed
  have eq: "touch_detected clock i (n # rest) (DrivesFile (Registry ds)) = (Inr (), DrivesFile (Registry ds'))"
    by (simp only: step run)
  have l: "length ds' = length ds" using len len1 by simp
  have all: "\<forall>k<length ds.
        (property (ds ! k) ''uuid'' \<in> detectedUUIDs (n # rest) \<longrightarrow>
           (\<exists>j<length (n # rest). ds' ! k = (ds ! k)(''last_seen'' \<mapsto> JStr (clock (i + j))))) \<and>
        (property (ds ! k) ''uuid'' \<notin> detectedUUIDs (n # rest) \<longrightarrow> ds' ! k = ds ! k)"
    using final by blast
  show ?case by (intro exI [of _ ds'] conjI eq l all)
qed

lemma displayDriveList_nth:
  "length (displayDriveList detected known) = length known"
  "k < length known \<Longrightarrow> displayDriveList detected known ! k = make_row detected (known ! k) k"
  by (auto simp: displayDriveList_def)


lemma touch_detected_shape:
  "\<exists>ds'. touch_detected clock i nodes (DrivesFile (Registry ds)) = (Inr (), DrivesFile (Registry ds')) \<and>
     length ds' = length ds"
proof (induction nodes arbitrary: ds i)
  case Nil
  show ?case by simp
next
  case (Cons n rest)
  show ?case
  proof (cases "find (\<lambda>d. strict_eq (property d ''uuid'') (Some (JStr (uuid n)))) ds")
    case None
    then show ?thesis using Cons.IH [where ds = ds and i = "Suc i"] by simp
  next
    case (Some d0)
    define ds1 where "ds1 = update_first (\<lambda>d. strict_eq (property d ''uuid'') (Some (JStr (uuid n))))
        (\<lambda>d. d(''last_seen'' \<mapsto> JStr (clock i))) ds"
    have "length ds1 = length ds" by (simp add: ds1_def)
    then show ?thesis
      using Cons.IH [where ds = ds1 and i = "Suc i"] Some
      by (simp add: updateLastSeen_def ds1_def [symmetric])
  qed
qed


text \<open>
  C5, amended.  \<open>showDrives\<close> produces one row per record, in the order of the
  records; the row is marked connected exactly when the record's uuid is the uuid of a
  detected node.  When the stored uuids are distinct, the record of a connected row gets
  \<open>last_seen\<close> set to the clock reading of one of the loop's iterations, which is at or
  after the previous \<open>last_seen\<close> provided that reading is; the other records are left
  as they were.
\<close>

theorem reconcile_connected_and_touch:
  "\<exists>known'.
     showDrives clock lsblk (DrivesFile (Registry known)) =
       (Inr (displayDriveList (detectDrives lsblk) known), DrivesFile (Registry known')) \<and>
     length (displayDriveList (detectDrives lsblk) known) = length known \<and>
     length known' = length known \<and>
     (\<forall>k<length known.
        row_index (displayDriveList (detectDrives lsblk) known ! k) = k + 1 \<and>
        row_label (displayDriveList (detectDrives lsblk) known ! k) =
          (if truthy (property (known ! k) ''label'') then property (known ! k) ''label''
           else Some (JStr ''Unlabeled'')) \<and>
        row_size (displayDriveList (detectDrives lsblk) known ! k) = property (known ! k) ''size'' \<and>
        row_type (displayDriveList (detectDrives lsblk) known ! k) = property (known ! k) ''type'' \<and>
        row_connected (displayDriveList (detectDrives lsblk) known ! k) =
          (\<exists>n\<in>set (detectDrives lsblk). property (known ! k) ''uuid'' = Some (JStr (uuid n))) \<and>
        (uuids_distinct known \<and> row_connected (displayDriveList (detectDrives lsblk) known ! k) \<longrightarrow>
           (\<exists>j<length (detectDrives lsblk).
              known' ! k = (known ! k)(''last_seen'' \<mapsto> JStr (clock j)) \<and>
              (\<forall>t. property (known ! k) ''last_seen'' = Some (JStr t) \<and> t \<le> clock j \<longrightarrow>
                 (\<exists>t'. property (known' ! k) ''last_seen'' = Some (JStr t') \<and> t \<le> t')))) \<and>
        (uuids_distinct known \<and> \<not> row_connected (displayDriveList (detectDrives lsblk) known ! k) \<longrightarrow>
           known' ! k = known ! k))"
proof -
  define detected where "detected = detectDrives lsblk"
  obtain known' where
    run: "touch_detected clock 0 detected (DrivesFile (Registry known)) = (Inr (), DrivesFile (Registry known'))"
    and len: "length known' = length known"
    using touch_detected_shape [of clock 0 detected known] by blast
  have eff: "(property (known ! k) ''uuid'' \<in> detectedUUIDs detected \<longrightarrow>
           (\<exists>j<length detected. known' ! k = (known ! k)(''last_seen'' \<mapsto> JStr (clock (0 + j))))) \<and>
        (property (known ! k) ''uuid'' \<notin> detectedUUIDs detected \<longrightarrow> known' ! k = known ! k)"
    if d: "uuids_distinct known" and k: "k < length known" for k
  proof -
    obtain known'' where
      "touch_detected clock 0 detected (DrivesFile (Registry known)) = (Inr (), DrivesFile (Registry known''))"
      and e: "\<forall>k<length known.
        (property (known ! k) ''uuid'' \<in> detectedUUIDs detected \<longrightarrow>
           (\<exists>j<length detected. known'' ! k = (known ! k)(''last_seen'' \<mapsto> JStr (clock (0 + j))))) \<and>
        (property (known ! k) ''uuid'' \<notin> detectedUUIDs detected \<longrightarrow> known'' ! k = known ! k)"
      using touch_detected_registry [OF d, of clock 0 detected] by blast
    then have "known'' = known'" using run by simp
    then show ?thesis using e k by blast
  qed
  have show_eq: "showDrives clock lsblk (DrivesFile (Registry known)) =
       (Inr (displayDriveList detected known), DrivesFile (Registry known'))"
    by (simp add: showDrives_def detected_def [symmetric] run)
  have rows:
    "row_index (displayDriveList detected known ! k) = k + 1"
    "row_label (displayDriveList detected known ! k) =
          (if truthy (property (known ! k) ''label'') then property (known ! k) ''label''
           else Some (JStr ''Unlabeled''))"
    "row_size (displayDriveList detected known ! k) = property (known ! k) ''size''"
    "row_type (displayDriveList detected known ! k) = property (known ! k) ''type''"
    "row_connected (displayDriveList detected known ! k) =
          (\<exists>n\<in>set detected. property (known ! k) ''uuid'' = Some (JStr (uuid n)))"
    if "k < length known" for k
    using that by (simp_all add: displayDriveList_nth make_row_def Let_def detectedUUIDs_iff)
  have conn: "row_connected (displayDriveList detected known ! k) =
          (property (known ! k) ''uuid'' \<in> detectedUUIDs detected)"
    if "k < length known" for k
    using that by (simp add: displayDriveList_nth make_row_def Let_def)
  have touched: "\<exists>j<length detected.
              known' ! k = (known ! k)(''last_seen'' \<mapsto> JStr (clock j)) \<and>
              (\<forall>t. property (known ! k) ''last_seen'' = Some (JStr t) \<and> t \<le> clock j \<longrightarrow>
                 (\<exists>t'. property (known' ! k) ''last_seen'' = Some (JStr t') \<and> t \<le> t'))"
    if k: "k < length known"
      and c: "uuids_distinct known \<and> row_connected (displayDriveList detected known ! k)" for k
  proof -
    obtain j where j: "j < length detected" "known' ! k = (known ! k)(''last_seen'' \<mapsto> JStr (clock j))"
      using eff [OF _ k] conn [OF k] c by auto
    then have "property (known' ! k) ''last_seen'' = Some (JStr (clock j))" by simp
    then show ?thesis using j by blast
  qed
  have untouched: "known' ! k = known ! k"
    if k: "k < length known"
      and c: "uuids_distinct known \<and> \<not> row_connected (displayDriveList detected known ! k)" for k
    using eff [OF _ k] conn [OF k] c by simp
  have all: "\<forall>k<length known.
        row_index (displayDriveList detected known ! k) = k + 1 \<and>
        row_label (displayDriveList detected known ! k) =
          (if truthy (property (known ! k) ''label'') then property (known ! k) ''label''
           else Some (JStr ''Unlabeled'')) \<and>
        row_size (displayDriveList detected known ! k) = property (known ! k) ''size'' \<and>
        row_type (displayDriveList detected known ! k) = property (known ! k) ''type'' \<and>
        row_connected (displayDriveList detected known ! k) =
          (\<exists>n\<in>set detected. property (known ! k) ''uuid'' = Some (JStr (uuid n))) \<and>
        (uuids_distinct known \<and> row_connected (displayDriveList detected known ! k) \<longrightarrow>
           (\<exists>j<length detected.
              known' ! k = (known ! k)(''last_seen'' \<mapsto> JStr (clock j)) \<and>
              (\<forall>t. property (known ! k) ''last_seen'' = Some (JStr t) \<and> t \<le> clock j \<longrightarrow>
                 (\<exists>t'. property (known' ! k) ''last_seen'' = Some (JStr t') \<and> t \<le> t')))) \<and>
        (uuids_distinct known \<and> \<not> row_connected (displayDriveList detected known ! k) \<longrightarrow>
           known' ! k = known ! k)"
  proof (intro allI impI conjI)
    fix k assume k: "k < length known"
    show "row_index (displayDriveList detected known ! k) = k + 1" by (rule rows(1) [OF k])
    show "row_label (displayDriveList detected known ! k) =
          (if truthy (property (known ! k) ''label'') then property (known ! k) ''label''
           else Some (JStr ''Unlabeled''))" by (rule rows(2) [OF k])
    show "row_size (displayDriveList detected known ! k) = property (known ! k) ''size''"
      by (rule rows(3) [OF k])
    show "row_type (displayDriveList detected known ! k) = property (known ! k) ''type''"
      by (rule rows(4) [OF k])
    show "row_connected (displayDriveList detected known ! k) =
          (\<exists>n\<in>set detected. property (known ! k) ''uuid'' = Some (JStr (uuid n)))"
      by (rule rows(5) [OF k])
    show "\<exists>j<length detected.
              known' ! k = (known ! k)(''last_seen'' \<mapsto> JStr (clock j)) \<and>
              (\<forall>t. property (known ! k) ''last_seen'' = Some (JStr t) \<and> t \<le> clock j \<longrightarrow>
                 (\<exists>t'. property (known' ! k) ''last_seen'' = Some (JStr t') \<and> t \<le> t'))"
      if "uuids_distinct known \<and> row_connected (displayDriveList detected known ! k)"
      by (rule touched [OF k that])
    show "known' ! k = known ! k"
      if "uuids_distinct known \<and> \<not> row_connected (displayDriveList detected known ! k)"
      by (rule untouched [OF k that])
  qed
  show ?thesis
    unfolding detected_def [symmetric]
    by (intro exI [of _ known'] conjI show_eq displayDriveList_nth(1) len all)
qed

lemma registered_scan:
  "detectDrives (Some [registered_partition]) = [make_node registered_partition]"
  "uuid (make_node registered_partition) = ''abc-123''"
  by (simp_all add: detectDrives_def registered_partition_def make_node_def or_default_def)

text \<open>
  C5, as stated, fails in its last part: \<open>updateLastSeen\<close> stores the current time
  whatever the record holds, so a clock that reads earlier than the stored \<open>last_seen\<close>
  moves it back.
\<close>

theorem touch_lowers_last_seen:
  "property (stamped (''2025-06-01T00:00:00.000Z'', sample_record)) ''last_seen'' = Some (JStr ''2025-06-01T00:00:00.000Z'') \<and>
   map (\<lambda>d. property d ''last_seen'')
     (fst (getAllDrives (snd (showDrives early_clock (Some [registered_partition])
        (DrivesFile (Registry [stamped (''2025-06-01T00:00:00.000Z'', sample_record)])))))) =
     [Some (JStr ''2025-01-01T00:00:00.000Z'')] \<and>
   ''2025-01-01T00:00:00.000Z'' < ''2025-06-01T00:00:00.000Z''"
proof -
  have 1: "property (stamped (''2025-06-01T00:00:00.000Z'', sample_record)) ''last_seen'' = Some (JStr ''2025-06-01T00:00:00.000Z'')"
    by (simp add: stamped_def)
  have 2: "map (\<lambda>d. property d ''last_seen'')
     (fst (getAllDrives (snd (showDrives early_clock (Some [registered_partition])
        (DrivesFile (Registry [stamped (''2025-06-01T00:00:00.000Z'', sample_record)])))))) =
     [Some (JStr ''2025-01-01T00:00:00.000Z'')]"
    by (simp add: showDrives_def registered_scan updateLastSeen_def early_clock_def)
  have 3: "''2025-01-01T00:00:00.000Z'' < ''2025-06-01T00:00:00.000Z''"
    by code_simp
  show ?thesis using 1 2 3 by blast
qed

theorem reconcile_connected_and_touch_witness:
  "uuids_distinct [stamped (''2025-06-01T00:00:00.000Z'', sample_record)] \<and>
   row_connected (displayDriveList (detectDrives (Some [registered_partition]))
      [stamped (''2025-06-01T00:00:00.000Z'', sample_record)] ! 0) \<and>
   (\<exists>known'. showDrives late_clock (Some [registered_partition])
        (DrivesFile (Registry [stamped (''2025-06-01T00:00:00.000Z'', sample_record)])) =
        (Inr (displayDriveList (detectDrives (Some [registered_partition]))
           [stamped (''2025-06-01T00:00:00.000Z'', sample_record)]), DrivesFile (Registry known')) \<and>
      known' ! 0 = (stamped (''2025-06-01T00:00:00.000Z'', sample_record))
        (''last_seen'' \<mapsto> JStr ''2025-12-01T00:00:00.000Z'')) \<and>
   ''2025-06-01T00:00:00.000Z'' \<le> ''2025-12-01T00:00:00.000Z''"
proof -
  define R where "R = stamped (''2025-06-01T00:00:00.000Z'', sample_record)"
  define L where "L = Some [registered_partition]"
  have d: "uuids_distinct [R]" by simp
  have u: "property R ''uuid'' = Some (JStr ''abc-123'')" by (simp add: R_def)
  have live: "\<exists>n\<in>set (detectDrives L). property ([R] ! 0) ''uuid'' = Some (JStr (uuid n))"
    by (simp add: L_def registered_scan u)
  have len: "length (detectDrives L) = 1" by (simp add: L_def registered_scan)
  obtain known' where
    run: "showDrives late_clock L (DrivesFile (Registry [R])) =
        (Inr (displayDriveList (detectDrives L) [R]), DrivesFile (Registry known'))"
    and rows: "\<forall>k<length [R].
        row_index (displayDriveList (detectDrives L) [R] ! k) = k + 1 \<and>
        row_label (displayDriveList (detectDrives L) [R] ! k) =
          (if truthy (property ([R] ! k) ''label'') then property ([R] ! k) ''label''
           else Some (JStr ''Unlabeled'')) \<and>
        row_size (displayDriveList (detectDrives L) [R] ! k) = property ([R] ! k) ''size'' \<and>
        row_type (displayDriveList (detectDrives L) [R] ! k) = property ([R] ! k) ''type'' \<and>
        row_connected (displayDriveList (detectDrives L) [R] ! k) =
          (\<exists>n\<in>set (detectDrives L). property ([R] ! k) ''uuid'' = Some (JStr (uuid n))) \<and>
        (uuids_distinct [R] \<and> row_connected (displayDriveList (detectDrives L) [R] ! k) \<longrightarrow>
           (\<exists>j<length (detectDrives L).
              known' ! k = ([R] ! k)(''last_seen'' \<mapsto> JStr (late_clock j)) \<and>
              (\<forall>t. property ([R] ! k) ''last_seen'' = Some (JStr t) \<and> t \<le> late_clock j \<longrightarrow>
                 (\<exists>t'. property (known' ! k) ''last_seen'' = Some (JStr t') \<and> t \<le> t')))) \<and>
        (uuids_distinct [R] \<and> \<not> row_connected (displayDriveList (detectDrives L) [R] ! k) \<longrightarrow>
           known' ! k = [R] ! k)"
    using reconcile_connected_and_touch [of late_clock L "[R]"] by blast
  have zero: "0 < length [R]" by simp
  have conn: "row_connected (displayDriveList (detectDrives L) [R] ! 0)"
    using rows [rule_format, OF zero] live by blast
  then obtain j where "known' ! 0 = ([R] ! 0)(''last_seen'' \<mapsto> JStr (late_clock j))"
    using rows [rule_format, OF zero] d by blast
  then have upd: "known' ! 0 = R(''last_seen'' \<mapsto> JStr ''2025-12-01T00:00:00.000Z'')"
    by (simp add: late_clock_def)
  have le: "''2025-06-01T00:00:00.000Z'' \<le> ''2025-12-01T00:00:00.000Z''" by code_simp
  show ?thesis
    unfolding R_def [symmetric] L_def [symmetric]
    using d conn run upd le by blast
qed

end
